theory Spec2Isabelle
  imports Complex_Main "HOL-Library.Monad_Syntax"
begin

section \<open>JavaScript numbers\<close>

text \<open>
  A JavaScript number is an IEEE 754 double. A finite double is modelled by the real number
  it denotes; the two zeros are one number, since the only zero this code divides by is the
  length of an empty array and no other operation it uses tells them apart. \<open>NaN\<close> and
  the two infinities are kept:
  \<open>undefined\<close> coerces to \<open>NaN\<close>, \<open>Math.min()\<close> of no arguments is \<open>Infinity\<close>, and
  a product that overflows is an infinity.
\<close>

datatype jsnum = Fin real | NaN | PosInf | NegInf

definition inf_of_sign :: "real \<Rightarrow> jsnum" where
  "inf_of_sign s = (if s > 0 then PosInf else if s < 0 then NegInf else NaN)"

text \<open>
  Every arithmetic operation on two finite doubles computes the exact result and rounds it
  to a double. The rounding is a field of the environment, next to \<open>Math.cos\<close> (whose
  accuracy the language leaves to the implementation) and the two conversions between
  strings and numbers (the \<open>StringToNumber\<close> grammar and the shortest round-trip printing):
  the theorems that name no particular environment hold whatever these four functions are.
  The rounding of IEEE 754 is \<open>binary64\<close> below.
\<close>

record js_env =
  rounding :: "real \<Rightarrow> jsnum"
  Math_cos :: "real \<Rightarrow> jsnum"
  StringToNumber :: "string \<Rightarrow> jsnum"
  NumberToString :: "jsnum \<Rightarrow> string"

fun js_neg :: "jsnum \<Rightarrow> jsnum" where
  "js_neg (Fin a) = Fin (- a)"
| "js_neg NaN = NaN"
| "js_neg PosInf = NegInf"
| "js_neg NegInf = PosInf"

fun js_add :: "js_env \<Rightarrow> jsnum \<Rightarrow> jsnum \<Rightarrow> jsnum" where
  "js_add E (Fin a) (Fin b) = rounding E (a + b)"
| "js_add E NaN _ = NaN"
| "js_add E _ NaN = NaN"
| "js_add E PosInf NegInf = NaN"
| "js_add E NegInf PosInf = NaN"
| "js_add E PosInf _ = PosInf"
| "js_add E _ PosInf = PosInf"
| "js_add E NegInf _ = NegInf"
| "js_add E _ NegInf = NegInf"

definition js_sub :: "js_env \<Rightarrow> jsnum \<Rightarrow> jsnum \<Rightarrow> jsnum" where
  "js_sub E a b = js_add E a (js_neg b)"

fun js_mul :: "js_env \<Rightarrow> jsnum \<Rightarrow> jsnum \<Rightarrow> jsnum" where
  "js_mul E (Fin a) (Fin b) = rounding E (a * b)"
| "js_mul E NaN _ = NaN"
| "js_mul E _ NaN = NaN"
| "js_mul E PosInf (Fin b) = inf_of_sign b"
| "js_mul E NegInf (Fin b) = inf_of_sign (- b)"
| "js_mul E (Fin a) PosInf = inf_of_sign a"
| "js_mul E (Fin a) NegInf = inf_of_sign (- a)"
| "js_mul E PosInf PosInf = PosInf"
| "js_mul E NegInf NegInf = PosInf"
| "js_mul E PosInf NegInf = NegInf"
| "js_mul E NegInf PosInf = NegInf"

text \<open>The divisors of this code are the constants 2, 180 and 1000 and the length of an
  array, so a zero divisor is the positive zero.\<close>

fun js_div :: "js_env \<Rightarrow> jsnum \<Rightarrow> jsnum \<Rightarrow> jsnum" where
  "js_div E (Fin a) (Fin b) = (if b = 0 then inf_of_sign a else rounding E (a / b))"
| "js_div E NaN _ = NaN"
| "js_div E _ NaN = NaN"
| "js_div E (Fin a) _ = Fin 0"
| "js_div E PosInf (Fin b) = (if b < 0 then NegInf else PosInf)"
| "js_div E NegInf (Fin b) = (if b < 0 then PosInf else NegInf)"
| "js_div E _ _ = NaN"

fun js_abs :: "jsnum \<Rightarrow> jsnum" where
  "js_abs (Fin a) = Fin \<bar>a\<bar>"
| "js_abs NaN = NaN"
| "js_abs _ = PosInf"

fun js_cos :: "js_env \<Rightarrow> jsnum \<Rightarrow> jsnum" where
  "js_cos E (Fin a) = Math_cos E a"
| "js_cos E _ = NaN"

text \<open>\<open>Math.PI\<close> is the double nearest to \<open>\<pi>\<close>.\<close>

definition Math_PI :: "js_env \<Rightarrow> jsnum" where
  "Math_PI E = rounding E pi"

text \<open>The relational operators: every comparison with \<open>NaN\<close> is false.\<close>

fun js_lt :: "jsnum \<Rightarrow> jsnum \<Rightarrow> bool" where
  "js_lt (Fin a) (Fin b) = (a < b)"
| "js_lt NaN _ = False"
| "js_lt _ NaN = False"
| "js_lt NegInf b = (b \<noteq> NegInf)"
| "js_lt a PosInf = (a \<noteq> PosInf)"
| "js_lt _ _ = False"

fun js_eq :: "jsnum \<Rightarrow> jsnum \<Rightarrow> bool" where
  "js_eq NaN _ = False"
| "js_eq _ NaN = False"
| "js_eq a b = (a = b)"

definition js_gt :: "jsnum \<Rightarrow> jsnum \<Rightarrow> bool" where
  "js_gt a b = js_lt b a"

definition js_le :: "jsnum \<Rightarrow> jsnum \<Rightarrow> bool" where
  "js_le a b = (js_lt a b \<or> js_eq a b)"

definition js_ge :: "jsnum \<Rightarrow> jsnum \<Rightarrow> bool" where
  "js_ge a b = js_le b a"

text \<open>\<open>Math.min\<close> and \<open>Math.max\<close>: \<open>NaN\<close> as soon as one argument is \<open>NaN\<close>.\<close>

definition js_min2 :: "jsnum \<Rightarrow> jsnum \<Rightarrow> jsnum" where
  "js_min2 a b = (if a = NaN \<or> b = NaN then NaN else if js_lt b a then b else a)"

definition js_max2 :: "jsnum \<Rightarrow> jsnum \<Rightarrow> jsnum" where
  "js_max2 a b = (if a = NaN \<or> b = NaN then NaN else if js_lt a b then b else a)"

definition Math_min :: "jsnum list \<Rightarrow> jsnum" where
  "Math_min xs = foldl js_min2 PosInf xs"

definition Math_max :: "jsnum list \<Rightarrow> jsnum" where
  "Math_max xs = foldl js_max2 NegInf xs"

subsection \<open>The rounding of IEEE 754\<close>

text \<open>
  Round to nearest, ties to even, in the binary64 format: a number of binary exponent
  \<open>e\<close> is rounded to a multiple of \<open>2\<^sup>e\<^sup>-\<^sup>5\<^sup>2\<close>, and to a multiple of \<open>2\<^sup>-\<^sup>1\<^sup>0\<^sup>7\<^sup>4\<close> in the
  subnormal range; a result of magnitude \<open>2\<^sup>1\<^sup>0\<^sup>2\<^sup>4\<close> or more is an infinity.
\<close>

definition round_half_even :: "real \<Rightarrow> int" where
  "round_half_even z =
     (let f = \<lfloor>z\<rfloor>; d = z - of_int f
      in if d < 1 / 2 then f else if 1 / 2 < d then f + 1 else if even f then f else f + 1)"

definition exponent :: "real \<Rightarrow> int" where
  "exponent x = \<lfloor>log 2 \<bar>x\<bar>\<rfloor>"

definition binary64 :: "real \<Rightarrow> jsnum" where
  "binary64 x =
     (if x = 0 then Fin 0
      else let e = max (exponent x - 52) (- 1074);
               y = of_int (round_half_even (x / 2 powi e)) * 2 powi e
           in if 2 ^ 1024 \<le> \<bar>y\<bar> then inf_of_sign x else Fin y)"

text \<open>
  The arithmetic of the real numbers, in which the specification writes its formulas:
  nothing is rounded and the cosine is the cosine.
\<close>

definition exact :: "js_env \<Rightarrow> bool" where
  "exact E = (rounding E = Fin \<and> Math_cos E = (\<lambda>x. Fin (cos x)))"

section \<open>JavaScript values\<close>

datatype jsval =
    Undefined
  | Null
  | Bool bool
  | Number jsnum
  | Str string
  | Arr "jsval list"
  | Obj "(string \<times> jsval) list"


fun join_comma :: "string list \<Rightarrow> string" where
  "join_comma [] = []"
| "join_comma [s] = s"
| "join_comma (s # t # ss) = s @ '','' @ join_comma (t # ss)"

fun ToString :: "js_env \<Rightarrow> jsval \<Rightarrow> string" where
  "ToString E Undefined = ''undefined''"
| "ToString E Null = ''null''"
| "ToString E (Bool b) = (if b then ''true'' else ''false'')"
| "ToString E (Number n) = NumberToString E n"
| "ToString E (Str s) = s"
| "ToString E (Arr xs) =
     join_comma (map (\<lambda>x. if x = Undefined \<or> x = Null then [] else ToString E x) xs)"
| "ToString E (Obj kvs) = ''[object Object]''"

fun ToNumber :: "js_env \<Rightarrow> jsval \<Rightarrow> jsnum" where
  "ToNumber E Undefined = NaN"
| "ToNumber E Null = Fin 0"
| "ToNumber E (Bool b) = Fin (if b then 1 else 0)"
| "ToNumber E (Number n) = n"
| "ToNumber E v = StringToNumber E (ToString E v)"

text \<open>The binary \<open>+\<close>: string concatenation as soon as one operand is a string, an array
  or an object (which \<open>ToPrimitive\<close> turns into a string), numeric addition otherwise.\<close>

fun is_stringy :: "jsval \<Rightarrow> bool" where
  "is_stringy (Str s) = True"
| "is_stringy (Arr xs) = True"
| "is_stringy (Obj kvs) = True"
| "is_stringy _ = False"

definition js_plus :: "js_env \<Rightarrow> jsval \<Rightarrow> jsval \<Rightarrow> jsval" where
  "js_plus E a b =
     (if is_stringy a \<or> is_stringy b then Str (ToString E a @ ToString E b)
      else Number (js_add E (ToNumber E a) (ToNumber E b)))"

text \<open>Decimal index keys of a plain object.\<close>

fun dec :: "nat \<Rightarrow> string" where
  "dec n = (if n < 10 then [''0123456789'' ! n]
            else dec (n div 10) @ [''0123456789'' ! (n mod 10)])"

declare dec.simps [simp del]

text \<open>
  Property reads. Reading any property of \<open>undefined\<close> or \<open>null\<close> throws a TypeError,
  which is \<open>None\<close> here; every other read returns a value, \<open>undefined\<close> when the
  property is absent.
\<close>

fun get_index :: "jsval \<Rightarrow> nat \<Rightarrow> jsval option" where
  "get_index Undefined i = None"
| "get_index Null i = None"
| "get_index (Arr xs) i = Some (if i < length xs then xs ! i else Undefined)"
| "get_index (Str s) i = Some (if i < length s then Str [s ! i] else Undefined)"
| "get_index (Obj kvs) i = Some (case map_of kvs (dec i) of None \<Rightarrow> Undefined | Some v \<Rightarrow> v)"
| "get_index _ i = Some Undefined"

fun get_prop :: "jsval \<Rightarrow> string \<Rightarrow> jsval option" where
  "get_prop Undefined k = None"
| "get_prop Null k = None"
| "get_prop (Obj kvs) k = Some (case map_of kvs k of None \<Rightarrow> Undefined | Some v \<Rightarrow> v)"
| "get_prop (Arr xs) k = Some (if k = ''length'' then Number (Fin (real (length xs))) else Undefined)"
| "get_prop (Str s) k = Some (if k = ''length'' then Number (Fin (real (length s))) else Undefined)"
| "get_prop _ k = Some Undefined"

fun isArray :: "jsval \<Rightarrow> bool" where
  "isArray (Arr xs) = True"
| "isArray _ = False"


section \<open>geometry.js\<close>

text \<open>\<open>p[i]\<close> used as a number.\<close>

definition coord :: "js_env \<Rightarrow> jsval \<Rightarrow> nat \<Rightarrow> jsnum option" where
  "coord E p i = map_option (ToNumber E) (get_index p i)"

definition direction :: "js_env \<Rightarrow> jsval \<Rightarrow> jsval \<Rightarrow> jsval \<Rightarrow> jsnum option" where
  "direction E p1 p2 p3 = do {
     p31 \<leftarrow> coord E p3 1; p11 \<leftarrow> coord E p1 1;
     p20 \<leftarrow> coord E p2 0; p10 \<leftarrow> coord E p1 0;
     p21 \<leftarrow> coord E p2 1; p30 \<leftarrow> coord E p3 0;
     Some (js_sub E (js_mul E (js_sub E p31 p11) (js_sub E p20 p10))
                  (js_mul E (js_sub E p21 p11) (js_sub E p30 p10)))
   }"

definition onSegment :: "js_env \<Rightarrow> jsval \<Rightarrow> jsval \<Rightarrow> jsval \<Rightarrow> bool option" where
  "onSegment E p q r = do {
     q0 \<leftarrow> coord E q 0; p0 \<leftarrow> coord E p 0; r0 \<leftarrow> coord E r 0;
     q1 \<leftarrow> coord E q 1; p1 \<leftarrow> coord E p 1; r1 \<leftarrow> coord E r 1;
     Some (js_le q0 (js_max2 p0 r0) \<and> js_ge q0 (js_min2 p0 r0) \<and>
           js_le q1 (js_max2 p1 r1) \<and> js_ge q1 (js_min2 p1 r1))
   }"

definition doLinesIntersect :: "js_env \<Rightarrow> jsval \<Rightarrow> jsval \<Rightarrow> jsval \<Rightarrow> jsval \<Rightarrow> bool option" where
  "doLinesIntersect E p1 p2 p3 p4 = do {
     d1 \<leftarrow> direction E p3 p4 p1;
     d2 \<leftarrow> direction E p3 p4 p2;
     d3 \<leftarrow> direction E p1 p2 p3;
     d4 \<leftarrow> direction E p1 p2 p4;
     if ((js_gt d1 (Fin 0) \<and> js_lt d2 (Fin 0)) \<or> (js_lt d1 (Fin 0) \<and> js_gt d2 (Fin 0))) \<and>
        ((js_gt d3 (Fin 0) \<and> js_lt d4 (Fin 0)) \<or> (js_lt d3 (Fin 0) \<and> js_gt d4 (Fin 0)))
     then Some True
     else do {
       c1 \<leftarrow> (if js_eq d1 (Fin 0) then onSegment E p3 p1 p4 else Some False);
       if c1 then Some True else do {
       c2 \<leftarrow> (if js_eq d2 (Fin 0) then onSegment E p3 p2 p4 else Some False);
       if c2 then Some True else do {
       c3 \<leftarrow> (if js_eq d3 (Fin 0) then onSegment E p1 p3 p2 else Some False);
       if c3 then Some True else do {
       c4 \<leftarrow> (if js_eq d4 (Fin 0) then onSegment E p1 p4 p2 else Some False);
       if c4 then Some True else Some False } } } }
   }"

text \<open>
  \<open>wouldIntersect(existingPoints, newPoint)\<close>, \<open>existingPoints\<close> an array. Each loop
  is a recursion on its index; \<open>Some True\<close> is the early \<open>return true\<close>, \<open>Some False\<close>
  the loop running to its end.
\<close>

function newLineLoop :: "js_env \<Rightarrow> jsval list \<Rightarrow> jsval \<Rightarrow> nat \<Rightarrow> bool option" where
  "newLineLoop E existingPoints newPoint i =
     (if i < length existingPoints - 1 then
        (if i = length existingPoints - 2 then newLineLoop E existingPoints newPoint (i + 1)
         else do {
           hit \<leftarrow> doLinesIntersect E (existingPoints ! (length existingPoints - 1)) newPoint
                    (existingPoints ! i) (existingPoints ! (i + 1));
           if hit then Some True else newLineLoop E existingPoints newPoint (i + 1)
         })
      else Some False)"
  by pat_completeness auto
termination
  by (relation "measure (\<lambda>(E, ps, p, i). length ps - i)") auto

function closingLoop :: "js_env \<Rightarrow> jsval list \<Rightarrow> jsval \<Rightarrow> nat \<Rightarrow> bool option" where
  "closingLoop E existingPoints newPoint i =
     (if i < length existingPoints - 1 then do {
        hit \<leftarrow> doLinesIntersect E newPoint (existingPoints ! 0)
                 (existingPoints ! i) (existingPoints ! (i + 1));
        if hit then Some True else closingLoop E existingPoints newPoint (i + 1)
      }
      else Some False)"
  by pat_completeness auto
termination
  by (relation "measure (\<lambda>(E, ps, p, i). length ps - i)") auto

declare newLineLoop.simps [simp del] closingLoop.simps [simp del]

definition wouldIntersect :: "js_env \<Rightarrow> jsval list \<Rightarrow> jsval \<Rightarrow> bool option" where
  "wouldIntersect E existingPoints newPoint =
     (if length existingPoints < 2 then Some False
      else do {
        hit \<leftarrow> newLineLoop E existingPoints newPoint 0;
        if hit then Some True
        else if length existingPoints \<ge> 2 then closingLoop E existingPoints newPoint 1
        else Some False
      })"

section \<open>zoneCalculations.js\<close>

text \<open>Truthiness, as \<open>if (v)\<close> and \<open>!v\<close> read it.\<close>

fun truthy :: "jsval \<Rightarrow> bool" where
  "truthy Undefined = False"
| "truthy Null = False"
| "truthy (Bool b) = b"
| "truthy (Number n) = (n \<noteq> Fin 0 \<and> n \<noteq> NaN)"
| "truthy (Str s) = (s \<noteq> [])"
| "truthy (Arr xs) = True"
| "truthy (Obj kvs) = True"

definition is_array_at :: "jsval \<Rightarrow> nat \<Rightarrow> bool" where
  "is_array_at v i = (case get_index v i of None \<Rightarrow> False | Some x \<Rightarrow> isArray x)"

text \<open>
  The unwrapping loop that all three functions repeat:
  \<^verbatim>\<open>while (Array.isArray(coords[0]) && Array.isArray(coords[0][0]) && coords.length === 1)
    coords = coords[0];\<close>
  \<open>None\<close> when \<open>coords[0]\<close> throws.
\<close>

function unwrapCoords :: "jsval \<Rightarrow> jsval option" where
  "unwrapCoords coords =
     (case get_index coords 0 of
        None \<Rightarrow> None
      | Some c0 \<Rightarrow>
          if isArray c0 \<and> is_array_at c0 0 \<and> get_prop coords ''length'' = Some (Number (Fin 1))
          then unwrapCoords c0 else Some coords)"
  by pat_completeness auto
termination
proof (relation "measure size")
  show "wf (measure size)" by simp
next
  fix coords c0 :: jsval
  assume get: "get_index coords 0 = Some c0"
    and cond: "isArray c0 \<and> is_array_at c0 0 \<and> get_prop coords ''length'' = Some (Number (Fin 1))"
  have "size c0 < size coords"
  proof (cases coords)
    case (Arr xs)
    with get cond have "0 < length xs" "c0 = xs ! 0" by (auto split: if_splits)
    then have "c0 \<in> set xs" by simp
    then have "size c0 \<le> size_list size xs" by (simp add: size_list_estimation')
    with Arr show ?thesis by simp
  next
    case (Obj kvs)
    with get cond have "map_of kvs (dec 0) = Some c0" by (auto split: option.splits)
    then have "(dec 0, c0) \<in> set kvs" by (rule map_of_SomeD)
    then have "size_prod (\<lambda>x. 0) size (dec 0, c0) \<le> size_list (size_prod (\<lambda>x. 0) size) kvs"
      by (simp add: size_list_estimation')
    with Obj show ?thesis by simp
  qed (use get cond in \<open>auto split: if_splits\<close>)
  then show "(c0, coords) \<in> measure size" by simp
qed

declare unwrapCoords.simps [simp del]

text \<open>The rectangle branch of \<open>calculateZoneArea\<close>, after unwrapping.\<close>

definition rectangleArea :: "js_env \<Rightarrow> jsval \<Rightarrow> jsval option" where
  "rectangleArea E coords = do {
     c0 \<leftarrow> get_index coords 0; c1 \<leftarrow> get_index coords 1;
     c2 \<leftarrow> get_index coords 2; c3 \<leftarrow> get_index coords 3;
     a0 \<leftarrow> coord E c0 0; a1 \<leftarrow> coord E c1 0; a2 \<leftarrow> coord E c2 0; a3 \<leftarrow> coord E c3 0;
     b0 \<leftarrow> coord E c0 1; b1 \<leftarrow> coord E c1 1; b2 \<leftarrow> coord E c2 1; b3 \<leftarrow> coord E c3 1;
     let lat1 = Math_min [a0, a1, a2, a3];
         lat2 = Math_max [a0, a1, a2, a3];
         lng1 = Math_min [b0, b1, b2, b3];
         lng2 = Math_max [b0, b1, b2, b3];
         latDiff = js_abs (js_sub E lat2 lat1);
         lngDiff = js_abs (js_sub E lng2 lng1);
         avgLat = js_div E (js_add E lat1 lat2) (Fin 2);
         heightM = js_mul E latDiff (Fin 111000);
         widthM = js_mul E (js_mul E lngDiff (Fin 111000))
                    (js_cos E (js_div E (js_mul E avgLat (Math_PI E)) (Fin 180)))
     in Some (Number (js_mul E heightM widthM))
   }"

text \<open>The shoelace loop of the polygon branch, on the elements of the array.\<close>

function areaLoop :: "js_env \<Rightarrow> jsval list \<Rightarrow> nat \<Rightarrow> jsnum \<Rightarrow> jsnum option" where
  "areaLoop E coords i area =
     (if i < length coords then do {
        lat1 \<leftarrow> coord E (coords ! i) 0;
        lng1 \<leftarrow> coord E (coords ! i) 1;
        lat2 \<leftarrow> coord E (coords ! ((i + 1) mod length coords)) 0;
        lng2 \<leftarrow> coord E (coords ! ((i + 1) mod length coords)) 1;
        areaLoop E coords (i + 1) (js_add E area (js_sub E (js_mul E lng1 lat2) (js_mul E lng2 lat1)))
      }
      else Some area)"
  by pat_completeness auto
termination
  by (relation "measure (\<lambda>(E, cs, i, a). length cs - i)") auto

declare areaLoop.simps [simp del]

text \<open>\<open>coords.reduce((sum, coord) => sum + coord[k], acc)\<close>.\<close>

fun sumCoord :: "js_env \<Rightarrow> nat \<Rightarrow> jsval \<Rightarrow> jsval list \<Rightarrow> jsval option" where
  "sumCoord E k acc [] = Some acc"
| "sumCoord E k acc (c # cs) = do { v \<leftarrow> get_index c k; sumCoord E k (js_plus E acc v) cs }"

text \<open>
  The polygon branch, after unwrapping. Anything but an array has no \<open>reduce\<close> method:
  for such a value the branch ends in a TypeError, in the loop or at \<open>coords.reduce\<close>.
\<close>

definition polygonArea :: "js_env \<Rightarrow> jsval \<Rightarrow> jsval option" where
  "polygonArea E coords =
     (case coords of
        Arr cs \<Rightarrow> do {
          raw \<leftarrow> areaLoop E cs 0 (Fin 0);
          sum \<leftarrow> sumCoord E 0 (Number (Fin 0)) cs;
          let area = js_abs (js_div E raw (Fin 2));
              metersPerDegreeLat = Fin 111000;
              avgLat = js_div E (ToNumber E sum) (Fin (real (length cs)));
              metersPerDegreeLng =
                js_mul E (Fin 111000) (js_cos E (js_div E (js_mul E avgLat (Math_PI E)) (Fin 180)))
          in Some (Number (js_mul E (js_mul E area metersPerDegreeLat) metersPerDegreeLng))
        }
      | _ \<Rightarrow> None)"

text \<open>\<open>calculateZoneArea(zone)\<close>: \<open>None\<close> is a thrown TypeError, \<open>Some Null\<close> the final
  \<open>return null\<close>.\<close>

definition calculateZoneArea :: "js_env \<Rightarrow> jsval \<Rightarrow> jsval option" where
  "calculateZoneArea E zone = do {
     ty \<leftarrow> get_prop zone ''type'';
     radius \<leftarrow> get_prop zone ''radius'';
     if ty = Str ''circle'' \<and> truthy radius then
       Some (Number (js_mul E (js_mul E (Math_PI E) (ToNumber E radius)) (ToNumber E radius)))
     else if ty = Str ''rectangle'' then do {
       raw \<leftarrow> get_prop zone ''coordinates'';
       coords \<leftarrow> unwrapCoords raw;
       rectangleArea E coords
     }
     else if ty = Str ''polygon'' then do {
       raw \<leftarrow> get_prop zone ''coordinates'';
       coords \<leftarrow> unwrapCoords raw;
       polygonArea E coords
     }
     else Some Null
   }"

text \<open>\<open>const [lat, lng] = v\<close>: \<open>v\<close> must be iterable.\<close>

fun destructure2 :: "jsval \<Rightarrow> (jsval \<times> jsval) option" where
  "destructure2 (Arr xs) =
     Some (if 0 < length xs then xs ! 0 else Undefined, if 1 < length xs then xs ! 1 else Undefined)"
| "destructure2 (Str s) =
     Some (if 0 < length s then Str [s ! 0] else Undefined,
           if 1 < length s then Str [s ! 1] else Undefined)"
| "destructure2 _ = None"

definition meanCenter :: "js_env \<Rightarrow> jsval \<Rightarrow> jsval option" where
  "meanCenter E coords =
     (case coords of
        Arr cs \<Rightarrow> do {
          sumLat \<leftarrow> sumCoord E 0 (Number (Fin 0)) cs;
          sumLng \<leftarrow> sumCoord E 1 (Number (Fin 0)) cs;
          Some (Obj [(''lat'', Number (js_div E (ToNumber E sumLat) (Fin (real (length cs))))),
                     (''lng'', Number (js_div E (ToNumber E sumLng) (Fin (real (length cs)))))])
        }
      | _ \<Rightarrow> None)"

definition calculateZoneCenter :: "js_env \<Rightarrow> jsval \<Rightarrow> jsval option" where
  "calculateZoneCenter E zone = do {
     ty \<leftarrow> get_prop zone ''type'';
     if ty = Str ''circle'' then do {
       raw \<leftarrow> get_prop zone ''coordinates'';
       c0 \<leftarrow> get_index raw 0;
       (lat, lng) \<leftarrow> destructure2 c0;
       Some (Obj [(''lat'', lat), (''lng'', lng)])
     }
     else if ty = Str ''rectangle'' \<or> ty = Str ''polygon'' then do {
       raw \<leftarrow> get_prop zone ''coordinates'';
       coords \<leftarrow> unwrapCoords raw;
       meanCenter E coords
     }
     else Some Null
   }"

section \<open>zoneValidation.js\<close>

text \<open>
  Turf.js is an external library: its four entry points are parameters of the model. A
  geometry is a value of the type \<open>'g\<close>; \<open>None\<close> is a thrown exception. A GeoJSON
  position \<open>[a, b]\<close> is the pair \<open>(a, b)\<close>.
\<close>

record 'g turf =
  turf_circle :: "jsval \<Rightarrow> jsval \<Rightarrow> jsnum \<Rightarrow> 'g option"
  turf_polygon :: "(jsval \<times> jsval) list \<Rightarrow> 'g option"
  booleanOverlap :: "'g \<Rightarrow> 'g \<Rightarrow> bool option"
  booleanIntersects :: "'g \<Rightarrow> 'g \<Rightarrow> bool option"

text \<open>\<open>coords.map(f).filter((p) => p !== null)\<close>: the callback returns \<open>Some None\<close> for
  \<open>null\<close> and \<open>None\<close> when it throws.\<close>

fun mapPoints :: "(jsval \<Rightarrow> 'a option option) \<Rightarrow> jsval list \<Rightarrow> 'a list option" where
  "mapPoints f [] = Some []"
| "mapPoints f (p # ps) = do {
     r \<leftarrow> f p;
     rs \<leftarrow> mapPoints f ps;
     Some (case r of None \<Rightarrow> rs | Some x \<Rightarrow> x # rs)
   }"

text \<open>The callback of the polygon branch: \<open>[lat, lng]\<close> arrays and \<open>{lat, lng}\<close> objects
  become \<open>[lng, lat]\<close>, anything else is dropped.\<close>

definition polygonPoint :: "jsval \<Rightarrow> (jsval \<times> jsval) option option" where
  "polygonPoint point =
     (if isArray point then do {
        p1 \<leftarrow> get_index point 1;
        p0 \<leftarrow> get_index point 0;
        Some (Some (p1, p0))
      }
      else do {
        plat \<leftarrow> get_prop point ''lat'';
        plng \<leftarrow> get_prop point ''lng'';
        if plat \<noteq> Undefined \<and> plng \<noteq> Undefined then Some (Some (plng, plat)) else Some None
      })"

text \<open>
  \<open>a === b\<close> for two values read from different places of the data: primitives compare
  by value (\<open>NaN\<close> is not equal to itself), arrays and objects are distinct objects.
\<close>

fun strict_eq :: "jsval \<Rightarrow> jsval \<Rightarrow> bool" where
  "strict_eq Undefined Undefined = True"
| "strict_eq Null Null = True"
| "strict_eq (Bool a) (Bool b) = (a = b)"
| "strict_eq (Number a) (Number b) = js_eq a b"
| "strict_eq (Str a) (Str b) = (a = b)"
| "strict_eq _ _ = False"

text \<open>
  Closing the ring: \<open>first\<close> is pushed again when it differs from \<open>last\<close>. On an empty
  ring \<open>first[0]\<close> throws; on a ring of one position \<open>first\<close> and \<open>last\<close> are the same
  array, which differs from itself only in a \<open>NaN\<close> component.
\<close>

fun closeRing :: "(jsval \<times> jsval) list \<Rightarrow> (jsval \<times> jsval) list option" where
  "closeRing [] = None"
| "closeRing [first] =
     Some (if fst first = Number NaN \<or> snd first = Number NaN then [first, first] else [first])"
| "closeRing (first # rest) =
     Some (if \<not> strict_eq (fst first) (fst (last rest)) \<or> \<not> strict_eq (snd first) (snd (last rest))
           then first # rest @ [first] else first # rest)"

definition arrayElements :: "jsval \<Rightarrow> jsval list option" where
  "arrayElements v = (case v of Arr xs \<Rightarrow> Some xs | _ \<Rightarrow> None)"

text \<open>The ring the polygon branch hands to \<open>turf.polygon\<close>. \<open>coords.map\<close> exists on
  arrays only.\<close>

definition polygonRing :: "jsval \<Rightarrow> (jsval \<times> jsval) list option" where
  "polygonRing raw = do {
     coords \<leftarrow> unwrapCoords raw;
     cs \<leftarrow> arrayElements coords;
     turfCoords \<leftarrow> mapPoints polygonPoint cs;
     closeRing turfCoords
   }"

text \<open>The callback of the rectangle branch: arrays are kept, objects that have the keys
  \<open>lat\<close> and \<open>lng\<close> become \<open>[lat, lng]\<close>, anything else is dropped; it never throws.\<close>

fun rectanglePoint :: "jsval \<Rightarrow> jsval option option" where
  "rectanglePoint (Arr xs) = Some (Some (Arr xs))"
| "rectanglePoint (Obj kvs) =
     Some (case (map_of kvs ''lat'', map_of kvs ''lng'') of
             (Some plat, Some plng) \<Rightarrow> Some (Arr [plat, plng])
           | _ \<Rightarrow> None)"
| "rectanglePoint _ = Some None"

definition rectangleRing :: "js_env \<Rightarrow> jsval \<Rightarrow> (jsval \<times> jsval) list option" where
  "rectangleRing E raw = do {
     coords \<leftarrow> unwrapCoords raw;
     cs \<leftarrow> arrayElements coords;
     points \<leftarrow> mapPoints rectanglePoint cs;
     lats \<leftarrow> those (map (\<lambda>p. coord E p 0) points);
     lngs \<leftarrow> those (map (\<lambda>p. coord E p 1) points);
     let minLat = Number (Math_min lats); maxLat = Number (Math_max lats);
         minLng = Number (Math_min lngs); maxLng = Number (Math_max lngs)
     in Some [(minLng, minLat), (maxLng, minLat), (maxLng, maxLat), (minLng, maxLat),
              (minLng, minLat)]
   }"

text \<open>The centre of a circle zone, as \<open>(lat, lng)\<close>.\<close>

definition circleCenter :: "jsval \<Rightarrow> (jsval \<times> jsval) option" where
  "circleCenter center =
     (if isArray center then do {
        c0 \<leftarrow> get_index center 0;
        c1 \<leftarrow> get_index center 1;
        Some (c0, c1)
      }
      else do {
        clat \<leftarrow> get_prop center ''lat'';
        clng \<leftarrow> get_prop center ''lng'';
        if clat \<noteq> Undefined \<and> clng \<noteq> Undefined then Some (clat, clng) else None
      })"

text \<open>
  \<open>zoneToTurfGeometry(zone)\<close>. The whole body is inside \<open>try { } catch { return null }\<close>,
  so a thrown exception and a returned \<open>null\<close> are the same result, \<open>None\<close>.
\<close>

definition zoneToTurfGeometry :: "'g turf \<Rightarrow> js_env \<Rightarrow> jsval \<Rightarrow> 'g option" where
  "zoneToTurfGeometry T E zone = do {
     ty \<leftarrow> get_prop zone ''type'';
     raw \<leftarrow> get_prop zone ''coordinates'';
     if ty = Str ''circle'' then do {
       center \<leftarrow> get_index raw 0;
       (clat, clng) \<leftarrow> circleCenter center;
       zradius \<leftarrow> get_prop zone ''radius'';
       turf_circle T clng clat (js_div E (ToNumber E zradius) (Fin 1000))
     }
     else if ty = Str ''polygon'' then do {
       turfCoords \<leftarrow> polygonRing raw;
       turf_polygon T turfCoords
     }
     else if ty = Str ''rectangle'' then do {
       rectangleCoords \<leftarrow> rectangleRing E raw;
       turf_polygon T rectangleCoords
     }
     else None
   }"

text \<open>The \<open>try\<close> block of the scan: a throwing Turf predicate pushes nothing.\<close>

definition overlapsOrIntersects :: "'g turf \<Rightarrow> 'g \<Rightarrow> 'g \<Rightarrow> bool" where
  "overlapsOrIntersects T newGeometry existingGeometry =
     (case booleanOverlap T newGeometry existingGeometry of
        None \<Rightarrow> False
      | Some overlaps \<Rightarrow>
          (case booleanIntersects T newGeometry existingGeometry of
             None \<Rightarrow> False
           | Some intersects \<Rightarrow> overlaps \<or> intersects))"

text \<open>The calls of \<open>console.warn\<close>, in order; the second one reads \<open>existingZone.id\<close>.\<close>

datatype warning = CouldNotConvertNew | CouldNotConvertExisting jsval

record overlap_result =
  hasOverlap :: bool
  overlappingZones :: "jsval list"

text \<open>The \<open>for ... of\<close> loop, with the array being filled and the warnings so far.\<close>

fun scanZones ::
  "'g turf \<Rightarrow> js_env \<Rightarrow> 'g \<Rightarrow> jsval list \<Rightarrow> jsval list \<Rightarrow> warning list
     \<Rightarrow> (jsval list \<times> warning list) option" where
  "scanZones T E newGeometry [] found warned = Some (found, warned)"
| "scanZones T E newGeometry (existingZone # rest) found warned =
     (case zoneToTurfGeometry T E existingZone of
        None \<Rightarrow> do {
          zid \<leftarrow> get_prop existingZone ''id'';
          scanZones T E newGeometry rest found (warned @ [CouldNotConvertExisting zid])
        }
      | Some existingGeometry \<Rightarrow>
          scanZones T E newGeometry rest
            (if overlapsOrIntersects T newGeometry existingGeometry
             then found @ [existingZone] else found)
            warned)"

text \<open>What \<open>for ... of\<close> iterates: the elements of an array, the characters of a string;
  any other value is not iterable.\<close>

fun iterateValues :: "jsval \<Rightarrow> jsval list option" where
  "iterateValues (Arr xs) = Some xs"
| "iterateValues (Str s) = Some (map (\<lambda>c. Str [c]) s)"
| "iterateValues _ = None"

definition checkZoneOverlap ::
  "'g turf \<Rightarrow> js_env \<Rightarrow> jsval \<Rightarrow> jsval \<Rightarrow> (overlap_result \<times> warning list) option" where
  "checkZoneOverlap T E newZone existingZones =
     (if \<not> truthy newZone \<or> \<not> truthy existingZones \<or>
         get_prop existingZones ''length'' = Some (Number (Fin 0))
      then Some (\<lparr>hasOverlap = False, overlappingZones = []\<rparr>, [])
      else
        (case zoneToTurfGeometry T E newZone of
           None \<Rightarrow> Some (\<lparr>hasOverlap = False, overlappingZones = []\<rparr>, [CouldNotConvertNew])
         | Some newGeometry \<Rightarrow> do {
             zones \<leftarrow> iterateValues existingZones;
             (found, warned) \<leftarrow> scanZones T E newGeometry zones [] [];
             Some (\<lparr>hasOverlap = (length found > 0), overlappingZones = found\<rparr>, warned)
           }))"

section \<open>useZones.js\<close>

text \<open>Object literals: \<open>putProp\<close> sets one property, \<open>spread\<close> copies the own properties
  of a value (\<open>{...v}\<close>).\<close>

fun putProp :: "string \<Rightarrow> jsval \<Rightarrow> (string \<times> jsval) list \<Rightarrow> (string \<times> jsval) list" where
  "putProp k v [] = [(k, v)]"
| "putProp k v ((k', v') # kvs) = (if k' = k then (k, v) # kvs else (k', v') # putProp k v kvs)"

fun ownProps :: "jsval \<Rightarrow> (string \<times> jsval) list" where
  "ownProps (Obj kvs) = map (\<lambda>k. (k, the (map_of kvs k))) (remdups (map fst kvs))"
| "ownProps (Arr xs) = zip (map dec [0 ..< length xs]) xs"
| "ownProps (Str s) = zip (map dec [0 ..< length s]) (map (\<lambda>c. Str [c]) s)"
| "ownProps _ = []"

definition spread :: "jsval \<Rightarrow> (string \<times> jsval) list \<Rightarrow> (string \<times> jsval) list" where
  "spread v kvs = foldl (\<lambda>acc (k, x). putProp k x acc) kvs (ownProps v)"

text \<open>
  \<open>addZone(zoneData)\<close>: the identifier from \<open>Crypto.randomUUID()\<close> and the time stamp are
  parameters; the state is the list of zones. The result is the new zone and the new state.
\<close>

definition addZone ::
  "js_env \<Rightarrow> string \<Rightarrow> string \<Rightarrow> jsval \<Rightarrow> jsval list \<Rightarrow> (jsval \<times> jsval list) option" where
  "addZone E uuid now zoneData zones = do {
     area \<leftarrow> calculateZoneArea E zoneData;
     center \<leftarrow> calculateZoneCenter E zoneData;
     let newZone = Obj (putProp ''createdAt'' (Str now)
                       (putProp ''center'' center
                       (putProp ''area'' area
                       (spread zoneData
                       (putProp ''id'' (Str uuid) [])))))
     in Some (newZone, zones @ [newZone])
   }"

text \<open>\<open>updateZone(id, updates)\<close>:
  \<open>prev.map((zone) => (zone.id === id ? { ...zone, ...updates } : zone))\<close>.\<close>

definition updateZone :: "string \<Rightarrow> jsval \<Rightarrow> jsval list \<Rightarrow> jsval list option" where
  "updateZone zid updates zones =
     those (map (\<lambda>zone. do {
              i \<leftarrow> get_prop zone ''id'';
              Some (if i = Str zid then Obj (spread updates (spread zone [])) else zone)
            }) zones)"

section \<open>Canonical points\<close>

text \<open>A canonical point is a pair \<open>(lat, lng)\<close> of finite numbers; as a JavaScript value
  it is the two-element array \<open>[lat, lng]\<close>.\<close>

type_synonym point = "real \<times> real"

definition lat :: "point \<Rightarrow> real" where "lat p = fst p"
definition lng :: "point \<Rightarrow> real" where "lng p = snd p"

definition js_point :: "point \<Rightarrow> jsval" where
  "js_point p = Arr [Number (Fin (lat p)), Number (Fin (lng p))]"

section \<open>The segment test as the specification words it\<close>

text \<open>
  The orientation \<open>(r.lng - p.lng)(q.lat - p.lat) - (q.lng - p.lng)(r.lat - p.lat)\<close>, a
  JavaScript number: each difference and each product is rounded. Two orientations have
  strictly opposite signs when one is above and the other below zero.
\<close>

definition spec_direction :: "js_env \<Rightarrow> point \<Rightarrow> point \<Rightarrow> point \<Rightarrow> jsnum" where
  "spec_direction E p q r =
     js_sub E (js_mul E (js_sub E (Fin (lng r)) (Fin (lng p))) (js_sub E (Fin (lat q)) (Fin (lat p))))
              (js_mul E (js_sub E (Fin (lng q)) (Fin (lng p))) (js_sub E (Fin (lat r)) (Fin (lat p))))"

definition strictly_opposite :: "jsnum \<Rightarrow> jsnum \<Rightarrow> bool" where
  "strictly_opposite x y =
     ((js_gt x (Fin 0) \<and> js_lt y (Fin 0)) \<or> (js_lt x (Fin 0) \<and> js_gt y (Fin 0)))"

definition on_segment :: "point \<Rightarrow> point \<Rightarrow> point \<Rightarrow> bool" where
  "on_segment q s t =
     (min (lat s) (lat t) \<le> lat q \<and> lat q \<le> max (lat s) (lat t) \<and>
      min (lng s) (lng t) \<le> lng q \<and> lng q \<le> max (lng s) (lng t))"

definition segments_intersect :: "js_env \<Rightarrow> point \<Rightarrow> point \<Rightarrow> point \<Rightarrow> point \<Rightarrow> bool" where
  "segments_intersect E a1 a2 b1 b2 =
     (let d1 = spec_direction E b1 b2 a1; d2 = spec_direction E b1 b2 a2;
          d3 = spec_direction E a1 a2 b1; d4 = spec_direction E a1 a2 b2
      in (strictly_opposite d1 d2 \<and> strictly_opposite d3 d4) \<or>
         (d1 = Fin 0 \<and> on_segment a1 b1 b2) \<or> (d2 = Fin 0 \<and> on_segment a2 b1 b2) \<or>
         (d3 = Fin 0 \<and> on_segment b1 a1 a2) \<or> (d4 = Fin 0 \<and> on_segment b2 a1 a2))"

section \<open>The self-intersection guard as the specification words it\<close>

text \<open>
  Edge \<open>i\<close> of a ring joins \<open>ring[i]\<close> and \<open>ring[i + 1]\<close>, so a ring of \<open>n\<close> points has
  the edges \<open>0 .. n - 2\<close>. \<open>new_edge_hits\<close>: the new segment \<open>ring.last \<rightarrow> candidate\<close>
  meets edge \<open>i\<close>; \<open>closing_edge_hits\<close>: the closing segment \<open>candidate \<rightarrow> ring.first\<close>
  meets edge \<open>i\<close>.
\<close>

definition new_edge_hits :: "js_env \<Rightarrow> point list \<Rightarrow> point \<Rightarrow> nat \<Rightarrow> bool" where
  "new_edge_hits E ring c i =
     segments_intersect E (ring ! (length ring - 1)) c (ring ! i) (ring ! (i + 1))"

definition closing_edge_hits :: "js_env \<Rightarrow> point list \<Rightarrow> point \<Rightarrow> nat \<Rightarrow> bool" where
  "closing_edge_hits E ring c i =
     segments_intersect E c (ring ! 0) (ring ! i) (ring ! (i + 1))"

text \<open>The new segment against every edge but the last one (the edge it extends).\<close>

definition new_segment_check :: "js_env \<Rightarrow> point list \<Rightarrow> point \<Rightarrow> bool" where
  "new_segment_check E ring c = (\<exists>i \<in> {0 ..< length ring - 2}. new_edge_hits E ring c i)"

text \<open>The closing segment against the edges \<open>2 .. ring.length - 2\<close>, as the
  specification numbers them.\<close>

definition closing_check_spec :: "js_env \<Rightarrow> point list \<Rightarrow> point \<Rightarrow> bool" where
  "closing_check_spec E ring c = (\<exists>i \<in> {2 ..< length ring - 1}. closing_edge_hits E ring c i)"

text \<open>The closing segment against the edges \<open>1 .. ring.length - 2\<close>: every edge that does
  not start at \<open>ring.first\<close>.\<close>

definition closing_check :: "js_env \<Rightarrow> point list \<Rightarrow> point \<Rightarrow> bool" where
  "closing_check E ring c = (\<exists>i \<in> {1 ..< length ring - 1}. closing_edge_hits E ring c i)"

section \<open>The polygon area as the specification words it\<close>

text \<open>A flat ring of canonical points, as a JavaScript array.\<close>

definition js_ring :: "point list \<Rightarrow> jsval" where
  "js_ring ring = Arr (map js_point ring)"

text \<open>The shoelace sum \<open>\<Sum> (lng\<^sub>i \<sqdot> lat\<^sub>i\<^sub>+\<^sub>1 - lng\<^sub>i\<^sub>+\<^sub>1 \<sqdot> lat\<^sub>i)\<close>, the indices wrapping
  around the ring; the mean latitude; the area in square metres. First in the real
  numbers.\<close>

definition shoelace_term :: "point list \<Rightarrow> nat \<Rightarrow> real" where
  "shoelace_term ring i =
     lng (ring ! i) * lat (ring ! ((i + 1) mod length ring)) -
     lng (ring ! ((i + 1) mod length ring)) * lat (ring ! i)"

definition shoelace_raw :: "point list \<Rightarrow> real" where
  "shoelace_raw ring = (\<Sum>i\<leftarrow>[0 ..< length ring]. shoelace_term ring i)"

definition avg_lat :: "point list \<Rightarrow> real" where
  "avg_lat ring = (\<Sum>p\<leftarrow>ring. lat p) / real (length ring)"

definition spec_area_m2 :: "point list \<Rightarrow> real" where
  "spec_area_m2 ring =
     \<bar>shoelace_raw ring\<bar> / 2 * 111000 * (111000 * cos (avg_lat ring * pi / 180))"

text \<open>
  Then the same formula in JavaScript numbers, every operation rounded: the terms are
  added one by one from the first vertex on, and so are the latitudes.
\<close>

definition fl_term :: "js_env \<Rightarrow> point list \<Rightarrow> nat \<Rightarrow> jsnum" where
  "fl_term E ring i =
     js_sub E (js_mul E (Fin (lng (ring ! i))) (Fin (lat (ring ! ((i + 1) mod length ring)))))
              (js_mul E (Fin (lng (ring ! ((i + 1) mod length ring)))) (Fin (lat (ring ! i))))"

definition fl_shoelace :: "js_env \<Rightarrow> point list \<Rightarrow> jsnum" where
  "fl_shoelace E ring = foldl (\<lambda>s i. js_add E s (fl_term E ring i)) (Fin 0) [0 ..< length ring]"

definition fl_sum :: "js_env \<Rightarrow> real list \<Rightarrow> jsnum" where
  "fl_sum E xs = foldl (\<lambda>s x. js_add E s (Fin x)) (Fin 0) xs"

definition fl_mean :: "js_env \<Rightarrow> real list \<Rightarrow> jsnum" where
  "fl_mean E xs = js_div E (fl_sum E xs) (Fin (real (length xs)))"

definition fl_area_m2 :: "js_env \<Rightarrow> point list \<Rightarrow> jsnum" where
  "fl_area_m2 E ring =
     js_mul E (js_mul E (js_abs (js_div E (fl_shoelace E ring) (Fin 2))) (Fin 111000))
       (js_mul E (Fin 111000)
          (js_cos E (js_div E (js_mul E (fl_mean E (map lat ring)) (Math_PI E)) (Fin 180))))"

text \<open>The rings of at most \<open>2\<^sup>1\<^sup>0\<close> vertices whose coordinates are integers of magnitude
  at most \<open>2\<^sup>2\<^sup>0\<close>.\<close>

definition small_int_ring :: "point list \<Rightarrow> bool" where
  "small_int_ring ring =
     (length ring \<le> 2 ^ 10 \<and>
      (\<forall>p \<in> set ring. lat p \<in> \<int> \<and> lng p \<in> \<int> \<and> \<bar>lat p\<bar> \<le> 2 ^ 20 \<and> \<bar>lng p\<bar> \<le> 2 ^ 20))"

section \<open>The encodings of a point\<close>

text \<open>The GeoJSON position \<open>[lng, lat]\<close> of a canonical point, and the other three
  encodings of a point that the specification lists (\<open>js_point\<close> is the first).\<close>

definition js_position :: "point \<Rightarrow> jsval \<times> jsval" where
  "js_position p = (Number (Fin (lng p)), Number (Fin (lat p)))"

definition js_lat_lng :: "point \<Rightarrow> jsval" where
  "js_lat_lng p = Obj [(''lat'', Number (Fin (lat p))), (''lng'', Number (Fin (lng p)))]"

definition js_latitude_longitude :: "point \<Rightarrow> jsval" where
  "js_latitude_longitude p =
     Obj [(''latitude'', Number (Fin (lat p))), (''longitude'', Number (Fin (lng p)))]"

definition js_wrapped :: "point \<Rightarrow> jsval" where
  "js_wrapped p = Arr [js_point p]"

section \<open>The result of a scan\<close>

text \<open>\<open>zone.id\<close> of an entry of the scanned array, and the test the scan applies to an
  entry: it converts, and one of the two Turf predicates holds.\<close>

definition zone_id :: "jsval \<Rightarrow> jsval" where
  "zone_id z = (case get_prop z ''id'' of None \<Rightarrow> Undefined | Some v \<Rightarrow> v)"

definition overlapping :: "'g turf \<Rightarrow> js_env \<Rightarrow> 'g \<Rightarrow> jsval \<Rightarrow> bool" where
  "overlapping T E newGeometry z =
     (case zoneToTurfGeometry T E z of
        None \<Rightarrow> False
      | Some existingGeometry \<Rightarrow> overlapsOrIntersects T newGeometry existingGeometry)"

text \<open>The zones a scan finds: none for a missing or unconvertible candidate.\<close>

definition found_zones :: "'g turf \<Rightarrow> js_env \<Rightarrow> jsval \<Rightarrow> jsval list \<Rightarrow> jsval list" where
  "found_zones T E newZone zs =
     (if truthy newZone then
        (case zoneToTurfGeometry T E newZone of
           None \<Rightarrow> []
         | Some newGeometry \<Rightarrow> filter (overlapping T E newGeometry) zs)
      else [])"

section \<open>Concrete inputs\<close>

text \<open>
  Stand-ins to run the model on concrete inputs. \<open>demo_env\<close> is the arithmetic of IEEE
  doubles, with a correctly rounded cosine; \<open>exact_env\<close> is the arithmetic of the real
  numbers. For the two string conversions: constant functions. For Turf.js: a geometry is
  its ring, \<open>turf.polygon\<close> refuses a ring of fewer than 4 positions, two geometries
  intersect when they share a vertex.
\<close>

definition demo_env :: js_env where
  "demo_env = \<lparr>rounding = binary64, Math_cos = (\<lambda>x. binary64 (cos x)),
                StringToNumber = (\<lambda>s. NaN), NumberToString = (\<lambda>n. [])\<rparr>"

definition exact_env :: js_env where
  "exact_env = \<lparr>rounding = Fin, Math_cos = (\<lambda>x. Fin (cos x)),
                 StringToNumber = (\<lambda>s. NaN), NumberToString = (\<lambda>n. [])\<rparr>"

definition demo_turf :: "(jsval \<times> jsval) list turf" where
  "demo_turf = \<lparr>
     turf_circle = (\<lambda>clng clat r. Some [(clng, clat)]),
     turf_polygon = (\<lambda>ring. if length ring < 4 then None else Some ring),
     booleanOverlap = (\<lambda>a b. Some False),
     booleanIntersects = (\<lambda>a b. Some (\<exists>p \<in> set a. p \<in> set b)) \<rparr>"

text \<open>Rings whose mean latitude is 0: a square that straddles the equator, a square
  standing on a corner, and an axis-aligned rectangle of twice the area, its corners in
  the order the application draws them.\<close>

definition demo_square :: "point list" where
  "demo_square = [(-1, 0), (-1, 1), (1, 1), (1, 0)]"

definition demo_diamond :: "point list" where
  "demo_diamond = [(-1, 0), (0, 1), (1, 0), (0, -1)]"

definition demo_rectangle :: "point list" where
  "demo_rectangle = [(1, 0), (1, 2), (-1, 2), (-1, 0)]"

text \<open>A triangle with one very short side: its third vertex is \<open>2\<^sup>-\<^sup>5\<^sup>3\<close> degrees east of
  the meridian. All its coordinates are doubles.\<close>

definition demo_triangle :: "point list" where
  "demo_triangle = [(1, -1), (-1, 0), (0, 1 / 2 ^ 53)]"

text \<open>Zone objects over a flat ring: the smallest one of type \<open>polygon\<close>, the smallest
  one of type \<open>rectangle\<close>, a saved polygon zone with an id, and a zone of an unknown
  type, which does not convert.\<close>

definition demo_polygon_zone :: "point list \<Rightarrow> jsval" where
  "demo_polygon_zone ring = Obj [(''type'', Str ''polygon''), (''coordinates'', js_ring ring)]"

definition demo_rectangle_zone :: "point list \<Rightarrow> jsval" where
  "demo_rectangle_zone ring = Obj [(''type'', Str ''rectangle''), (''coordinates'', js_ring ring)]"

definition demo_saved_zone :: "string \<Rightarrow> point list \<Rightarrow> jsval" where
  "demo_saved_zone i ring =
     Obj [(''id'', Str i), (''type'', Str ''polygon''), (''coordinates'', js_ring ring)]"

definition demo_unknown_zone :: jsval where
  "demo_unknown_zone = Obj [(''id'', Str ''t''), (''type'', Str ''triangle'')]"

text \<open>
  A history of the store: \<open>demo_zone_data\<close>, which carries an area of its own, is saved
  as zone \<open>u1\<close> (\<open>demo_created_zone\<close>); then either its name and color are set
  (\<open>demo_renamed_zone\<close>), or its coordinates are replaced by those of the demo rectangle
  (\<open>demo_updated_zone\<close>).
\<close>

definition demo_zone_data :: jsval where
  "demo_zone_data =
     Obj [(''type'', Str ''polygon''), (''coordinates'', js_ring demo_square),
          (''area'', Number (Fin 1))]"

definition demo_created_zone :: jsval where
  "demo_created_zone =
     Obj [(''id'', Str ''u1''), (''type'', Str ''polygon''),
          (''coordinates'', js_ring demo_square),
          (''area'', Number (Fin 24642000000)),
          (''center'', Obj [(''lat'', Number (Fin 0)), (''lng'', Number (Fin (1 / 2)))]),
          (''createdAt'', Str ''t0'')]"

definition demo_rename :: jsval where
  "demo_rename = Obj [(''name'', Str ''Home''), (''color'', Str ''red'')]"

definition demo_renamed_zone :: jsval where
  "demo_renamed_zone =
     Obj [(''id'', Str ''u1''), (''type'', Str ''polygon''),
          (''coordinates'', js_ring demo_square),
          (''area'', Number (Fin 24642000000)),
          (''center'', Obj [(''lat'', Number (Fin 0)), (''lng'', Number (Fin (1 / 2)))]),
          (''createdAt'', Str ''t0''), (''name'', Str ''Home''), (''color'', Str ''red'')]"

definition demo_updated_zone :: jsval where
  "demo_updated_zone =
     Obj [(''id'', Str ''u1''), (''type'', Str ''polygon''),
          (''coordinates'', js_ring demo_rectangle),
          (''area'', Number (Fin 24642000000)),
          (''center'', Obj [(''lat'', Number (Fin 0)), (''lng'', Number (Fin (1 / 2)))]),
          (''createdAt'', Str ''t0'')]"
section \<open>Facts about rounding\<close>

lemma powr_powi: "2 powr (real_of_int k) = (2::real) powi k"
  by (rule powr_real_of_int') simp_all

lemma exponent_eq:
  assumes "2 powi k \<le> \<bar>x\<bar>" and "\<bar>x\<bar> < 2 powi (k + 1)"
  shows "exponent x = k"
proof -
  have pos: "0 < \<bar>x\<bar>" using assms(1) by (smt (verit) zero_less_power_int)
  have "2 powr (real_of_int k) \<le> \<bar>x\<bar>" "\<bar>x\<bar> < 2 powr (real_of_int (k + 1))"
    unfolding powr_powi using assms by blast+
  then have "2 powr (real_of_int k) \<le> \<bar>x\<bar> \<and> \<bar>x\<bar> < 2 powr (real_of_int k + 1)" by simp
  then have "\<lfloor>log 2 \<bar>x\<bar>\<rfloor> = k"
    using pos by (subst floor_log_eq_powr_iff) simp_all
  then show ?thesis by (simp add: exponent_def)
qed

lemma exponent_le:
  assumes "x \<noteq> 0" and "\<bar>x\<bar> < 2 powi (k + 1)"
  shows "exponent x \<le> k"
proof -
  have "\<bar>x\<bar> < 2 powr (real_of_int (k + 1))"
    unfolding powr_powi using assms(2) .
  then have "log 2 \<bar>x\<bar> < real_of_int (k + 1)"
    using assms(1) by (simp add: log_less_iff)
  then have "\<lfloor>log 2 \<bar>x\<bar>\<rfloor> < k + 1" by (simp only: floor_less_iff)
  then show ?thesis by (simp add: exponent_def)
qed

lemma round_half_even_int: "round_half_even (of_int n) = n"
  by (simp add: round_half_even_def)

lemma round_half_even_bounds:
  "\<lfloor>z\<rfloor> \<le> round_half_even z" "round_half_even z \<le> \<lfloor>z\<rfloor> + 1"
  by (simp_all add: round_half_even_def Let_def)

text \<open>A dyadic number with a significand under \<open>2^53\<close> is a double: rounding keeps it.\<close>

lemma binary64_dyadic:
  assumes int: "x * 2 ^ k \<in> \<int>" and small: "\<bar>x * 2 ^ k\<bar> < 2 ^ 53" and k: "k \<le> 1074"
    and big: "\<bar>x\<bar> < 2 ^ 1024"
  shows "binary64 x = Fin x"
proof (cases "x = 0")
  case True
  then show ?thesis by (simp add: binary64_def)
next
  case False
  define e where "e = max (exponent x - 52) (- 1074)"
  have "\<bar>x\<bar> * 2 ^ k < 2 ^ 53" using small by (simp add: abs_mult)
  then have "\<bar>x\<bar> < 2 ^ 53 / 2 ^ k" by (simp add: pos_less_divide_eq)
  also have "\<dots> = 2 powi (53 - int k)"
    by (simp add: power_int_diff)
  finally have "\<bar>x\<bar> < 2 powi ((52 - int k) + 1)" by (simp add: algebra_simps)
  from exponent_le [OF False this] have "exponent x - 52 \<le> - int k" by simp
  with k have le: "e \<le> - int k" by (simp add: e_def)
  obtain m :: int where m: "x * 2 ^ k = of_int m" using int by (auto elim: Ints_cases)
  have "x / 2 powi e = (x * 2 ^ k) * 2 powi (- int k - e)"
    by (simp add: power_int_diff power_int_minus field_simps)
  also have "\<dots> = of_int m * 2 ^ nat (- int k - e)"
    using le by (simp add: m power_int_def)
  also have "\<dots> = of_int (m * 2 ^ nat (- int k - e))" by simp
  finally have z: "x / 2 powi e = of_int (m * 2 ^ nat (- int k - e))" .
  have y: "of_int (round_half_even (x / 2 powi e)) * 2 powi e = x"
    unfolding z round_half_even_int unfolding z [symmetric] by simp
  show ?thesis
    using False big unfolding binary64_def e_def [symmetric] Let_def y by simp
qed

lemma binary64_int:
  "x \<in> \<int> \<Longrightarrow> \<bar>x\<bar> < 9007199254740992 \<Longrightarrow> binary64 x = Fin x"
  using binary64_dyadic [of x 0] by simp

text \<open>Rounding a number whose binary exponent is known.\<close>

lemma round_half_even_abs_le:
  assumes "\<bar>z\<bar> < 2 ^ 53"
  shows "\<bar>real_of_int (round_half_even z)\<bar> \<le> 2 ^ 53"
proof -
  from assms have "z < 2 ^ 53" "- (2 ^ 53) < z" by (simp_all add: abs_less_iff)
  then have "\<lfloor>z\<rfloor> < 2 ^ 53" "- (2 ^ 53) \<le> \<lfloor>z\<rfloor>"
    by (simp_all add: floor_less_iff le_floor_iff)
  with round_half_even_bounds [of z]
  have "- (2 ^ 53) \<le> round_half_even z" "round_half_even z \<le> 2 ^ 53" by linarith+
  then have "- (2 ^ 53) \<le> real_of_int (round_half_even z)"
    "real_of_int (round_half_even z) \<le> 2 ^ 53"
    by (metis of_int_le_iff of_int_minus of_int_numeral of_int_power)+
  then show ?thesis by (simp add: abs_le_iff)
qed

lemma binary64_round:
  assumes lo: "2 powi k \<le> \<bar>x\<bar>" and hi: "\<bar>x\<bar> < 2 powi (k + 1)"
    and k: "- 1022 \<le> k" "k < 1023"
  shows "binary64 x = Fin (of_int (round_half_even (x / 2 powi (k - 52))) * 2 powi (k - 52))"
proof -
  have nz: "x \<noteq> 0" using lo by (smt (verit) zero_less_power_int)
  have e: "max (exponent x - 52) (- 1074) = k - 52"
    using exponent_eq [OF lo hi] k by simp
  let ?z = "x / 2 powi (k - 52)"
  have "\<bar>?z\<bar> = \<bar>x\<bar> / 2 powi (k - 52)" by (simp add: abs_divide)
  also have "\<dots> < 2 powi (k + 1) / 2 powi (k - 52)"
    using hi by (simp add: divide_strict_right_mono)
  also have "\<dots> = 2 powi ((k + 1) - (k - 52))" by (rule power_int_diff [symmetric]) simp
  also have "(k + 1) - (k - 52) = 53" by simp
  also have "(2::real) powi 53 = 2 ^ 53" by (simp add: power_int_def)
  finally have zb: "\<bar>?z\<bar> < 2 ^ 53" .
  have "\<bar>real_of_int (round_half_even ?z) * 2 powi (k - 52)\<bar>
      = \<bar>real_of_int (round_half_even ?z)\<bar> * 2 powi (k - 52)"
    by (simp add: abs_mult)
  also have "\<dots> \<le> 2 ^ 53 * 2 powi (k - 52)"
    using round_half_even_abs_le [OF zb] by (intro mult_right_mono) simp_all
  also have "(2::real) ^ 53 = 2 powi 53" by (simp add: power_int_def)
  also have "(2::real) powi 53 * 2 powi (k - 52) = 2 powi (53 + (k - 52))"
    by (rule power_int_add [symmetric]) simp
  also have "53 + (k - 52) = k + 1" by simp
  also have "(2::real) powi (k + 1) \<le> 2 powi 1023"
    using k by (intro power_int_increasing) simp_all
  also have "(2::real) powi 1023 < 2 ^ 1024" by (simp add: power_int_def)
  finally have "\<not> 2 ^ 1024 \<le> \<bar>real_of_int (round_half_even ?z) * 2 powi (k - 52)\<bar>" by simp
  then show ?thesis
    using nz unfolding binary64_def e Let_def by simp
qed

text \<open>The same for a number under \<open>2^53\<close>, its unit in the last place being \<open>1 / 2^n\<close>.\<close>

lemma binary64_round_frac:
  assumes lo: "2 ^ 52 \<le> \<bar>x\<bar> * 2 ^ n" and hi: "\<bar>x\<bar> * 2 ^ n < 2 ^ 53" and n: "n \<le> 1074"
  shows "binary64 x = Fin (of_int (round_half_even (x * 2 ^ n)) / 2 ^ n)"
proof -
  have p: "(2::real) powi (- int n) = 1 / 2 ^ n"
    by (simp add: power_int_minus field_simps)
  have "2 powi (52 - int n) = 2 ^ 52 / (2::real) ^ n" by (simp add: power_int_diff)
  also have "\<dots> \<le> \<bar>x\<bar>" using lo by (simp add: pos_divide_le_eq)
  finally have a: "2 powi (52 - int n) \<le> \<bar>x\<bar>" .
  have "\<bar>x\<bar> < 2 ^ 53 / 2 ^ n" using hi by (simp add: pos_less_divide_eq)
  also have "\<dots> = 2 powi (53 - int n)" by (simp add: power_int_diff)
  finally have b: "\<bar>x\<bar> < 2 powi ((52 - int n) + 1)" by (simp add: algebra_simps)
  from binary64_round [OF a b] n
  have "binary64 x = Fin (of_int (round_half_even (x / 2 powi (- int n))) * 2 powi (- int n))"
    by simp
  then show ?thesis unfolding p by simp
qed


lemma binary64_dyadic52:
  "x * 2 ^ 52 \<in> \<int> \<Longrightarrow> \<bar>x * 2 ^ 52\<bar> < 2 ^ 53 \<Longrightarrow> binary64 x = Fin x"
  by (rule binary64_dyadic [of x 52]) (simp_all add: abs_mult)

lemma binary64_dyadic53:
  "x * 2 ^ 53 \<in> \<int> \<Longrightarrow> \<bar>x * 2 ^ 53\<bar> < 2 ^ 53 \<Longrightarrow> binary64 x = Fin x"
  by (rule binary64_dyadic [of x 53]) (simp_all add: abs_mult)

lemma binary64_pi: "\<exists>p. binary64 pi = Fin p"
proof -
  have "2 powi 1 \<le> \<bar>pi\<bar>" using pi_ge_two by simp
  moreover have "\<bar>pi\<bar> < 2 powi (1 + 1)" using pi_less_4 pi_gt_zero by simp
  ultimately have "binary64 pi =
      Fin (of_int (round_half_even (pi / 2 powi (1 - 52))) * 2 powi (1 - 52))"
    by (rule binary64_round) simp_all
  then show ?thesis by blast
qed

lemma demo_env_simps [simp]:
  "rounding demo_env = binary64"
  "Math_cos demo_env = (\<lambda>x. binary64 (cos x))"
  by (simp_all add: demo_env_def)

lemma exact_env_simps [simp]:
  "rounding exact_env = Fin"
  "Math_cos exact_env = (\<lambda>x. Fin (cos x))"
  by (simp_all add: exact_env_def)

lemma exact_exact_env: "exact exact_env"
  by (simp add: exact_def)

lemma js_mul_zero_PI_demo: "js_mul demo_env (Fin 0) (Math_PI demo_env) = Fin 0"
proof -
  obtain p where "binary64 pi = Fin p" using binary64_pi by blast
  then show ?thesis by (simp add: Math_PI_def binary64_def)
qed

lemma js_cos_zero_demo: "js_cos demo_env (Fin 0) = Fin 1"
  by (simp add: binary64_int)

text \<open>In the arithmetic of the real numbers the operations on finite numbers are those of
  the reals.\<close>

lemma exact_rounding:
  assumes "exact E"
  shows "rounding E x = Fin x" and "Math_cos E x = Fin (cos x)"
  using assms by (simp_all add: exact_def)

lemma exact_ops:
  assumes "exact E"
  shows "js_add E (Fin a) (Fin b) = Fin (a + b)"
    and "js_sub E (Fin a) (Fin b) = Fin (a - b)"
    and "js_mul E (Fin a) (Fin b) = Fin (a * b)"
    and "b \<noteq> 0 \<Longrightarrow> js_div E (Fin a) (Fin b) = Fin (a / b)"
    and "js_cos E (Fin a) = Fin (cos a)"
    and "Math_PI E = Fin pi"
  using assms by (simp_all add: exact_def js_sub_def Math_PI_def)

text \<open>\<open>NaN\<close> is absorbing.\<close>

lemma js_NaN_right [simp]:
  "js_add E a NaN = NaN" "js_mul E a NaN = NaN" "js_sub E a NaN = NaN"
  by (cases a; simp add: js_sub_def)+

section \<open>Facts about the segment test\<close>

lemma js_fin_simps [simp]:
  "js_sub E (Fin a) (Fin b) = rounding E (a - b)"
  "js_gt (Fin a) (Fin b) = (b < a)"
  "js_le (Fin a) (Fin b) = (a \<le> b)"
  "js_ge (Fin a) (Fin b) = (b \<le> a)"
  "js_eq (Fin a) (Fin b) = (a = b)"
  "js_min2 (Fin a) (Fin b) = Fin (min a b)"
  "js_max2 (Fin a) (Fin b) = Fin (max a b)"
  by (auto simp: js_sub_def js_gt_def js_le_def js_ge_def js_min2_def js_max2_def)

lemma js_eq_zero: "js_eq d (Fin 0) = (d = Fin 0)"
  by (cases d) simp_all

lemma coord_js_point [simp]:
  "coord E (js_point p) 0 = Some (Fin (lat p))"
  "coord E (js_point p) (Suc 0) = Some (Fin (lng p))"
  by (simp_all add: coord_def js_point_def)

lemma direction_js_point:
  "direction E (js_point p) (js_point q) (js_point r) = Some (spec_direction E p q r)"
  by (simp add: direction_def spec_direction_def)

lemma onSegment_js_point:
  "onSegment E (js_point s) (js_point q) (js_point t) = Some (on_segment q s t)"
  by (auto simp: onSegment_def on_segment_def)

lemma doLinesIntersect_js_point:
  "doLinesIntersect E (js_point a1) (js_point a2) (js_point b1) (js_point b2)
     = Some (segments_intersect E a1 a2 b1 b2)"
  by (auto simp: doLinesIntersect_def direction_js_point onSegment_js_point js_eq_zero
      segments_intersect_def strictly_opposite_def Let_def)

text \<open>In the arithmetic of the real numbers the orientation is the cross product.\<close>

lemma spec_direction_exact:
  assumes "exact E"
  shows "spec_direction E p q r =
     Fin ((lng r - lng p) * (lat q - lat p) - (lng q - lng p) * (lat r - lat p))"
  by (simp only: spec_direction_def exact_ops [OF assms])

text \<open>
  Rounding decides the test. The point \<open>[1, 1 + 2\<^sup>-\<^sup>2\<^sup>7]\<close> is not on the line through
  \<open>[0, 0]\<close> and \<open>[2 - 2\<^sup>-\<^sup>2\<^sup>6, 2]\<close>, but the product \<open>(1 + 2\<^sup>-\<^sup>2\<^sup>7)(2 - 2\<^sup>-\<^sup>2\<^sup>6) = 2 - 2\<^sup>-\<^sup>5\<^sup>3\<close>
  is rounded to \<open>2\<close>, the orientation is \<open>0\<close>, and the two segments below, which do not
  meet, are reported to intersect.
\<close>

lemma binary64_tie_two: "binary64 ((1 + 1 / 2 ^ 27) * (2 - 1 / 2 ^ 26)) = Fin 2"
  by (subst binary64_round_frac [of _ 52]) (simp_all add: round_half_even_def)

lemma spec_direction_rounded:
  "spec_direction demo_env (0, 0) (2 - 1 / 2 ^ 26, 2) (1, 1 + 1 / 2 ^ 27) = Fin 0"
  by (simp add: spec_direction_def lat_def lng_def binary64_int
      binary64_dyadic52 [simplified] binary64_tie_two [simplified])

lemma doLinesIntersect_rounded:
  "doLinesIntersect demo_env (js_point (0, 0)) (js_point (2 - 1 / 2 ^ 26, 2))
     (js_point (1, 1 + 1 / 2 ^ 27)) (js_point (2, 1)) = Some True \<and>
   doLinesIntersect exact_env (js_point (0, 0)) (js_point (2 - 1 / 2 ^ 26, 2))
     (js_point (1, 1 + 1 / 2 ^ 27)) (js_point (2, 1)) = Some False"
proof -
  have "on_segment (1, 1 + 1 / 2 ^ 27) (0, 0) (2 - 1 / 2 ^ 26, 2)"
    by (simp add: on_segment_def lat_def lng_def)
  then have "segments_intersect demo_env (0, 0) (2 - 1 / 2 ^ 26, 2) (1, 1 + 1 / 2 ^ 27) (2, 1)"
    using spec_direction_rounded by (simp add: segments_intersect_def Let_def)
  moreover have
    "\<not> segments_intersect exact_env (0, 0) (2 - 1 / 2 ^ 26, 2) (1, 1 + 1 / 2 ^ 27) (2, 1)"
    by (simp add: segments_intersect_def spec_direction_exact [OF exact_exact_env]
        strictly_opposite_def lat_def lng_def Let_def)
  ultimately show ?thesis by (simp add: doLinesIntersect_js_point)
qed

text \<open>
  C1. On four points given as \<open>[lat, lng]\<close> pairs, \<open>doLinesIntersect\<close> returns exactly
  what the orientation algorithm of the specification returns: true when \<open>d1, d2\<close> and
  \<open>d3, d4\<close> have strictly opposite signs, or when some \<open>dk\<close> is zero and the matching
  point lies coordinate-wise between the endpoints of the other segment; false otherwise.
  The orientations are JavaScript numbers, rounded as the environment rounds.
\<close>

theorem doLinesIntersect_spec:
  "doLinesIntersect E (js_point a1) (js_point a2) (js_point b1) (js_point b2)
     = Some (segments_intersect E a1 a2 b1 b2)"
proof -
  have d: "direction E (js_point p) (js_point q) (js_point r) = Some (spec_direction E p q r)"
    for p q r
    by (simp add: direction_def spec_direction_def)
  have s: "onSegment E (js_point s) (js_point q) (js_point t) = Some (on_segment q s t)"
    for s q t
    by (auto simp: onSegment_def on_segment_def)
  have z: "js_eq x (Fin 0) = (x = Fin 0)" for x
    by (cases x) simp_all
  show ?thesis
    unfolding doLinesIntersect_def d s z
    by (auto simp: segments_intersect_def strictly_opposite_def Let_def)
qed

theorem doLinesIntersect_spec_witness:
  "doLinesIntersect demo_env
     (js_point (0, 0)) (js_point (10, 10)) (js_point (0, 10)) (js_point (10, 0)) = Some True
   \<and> segments_intersect demo_env (0, 0) (10, 10) (0, 10) (10, 0)"
proof -
  have s: "segments_intersect demo_env (0, 0) (10, 10) (0, 10) (10, 0)"
    by (simp add: segments_intersect_def spec_direction_def strictly_opposite_def
        lat_def lng_def binary64_int)
  show ?thesis
    using doLinesIntersect_spec [of demo_env "(0, 0)" "(10, 10)" "(0, 10)" "(10, 0)"] s
    by simp
qed

section \<open>Facts about the self-intersection guard\<close>

lemma ex_from_split:
  "k < (n::nat) \<Longrightarrow> (\<exists>i. k \<le> i \<and> i < n \<and> P i) = (P k \<or> (\<exists>i. k + 1 \<le> i \<and> i < n \<and> P i))"
proof
  assume "k < n" and "\<exists>i. k \<le> i \<and> i < n \<and> P i"
  then obtain i where i: "k \<le> i" "i < n" "P i" by blast
  show "P k \<or> (\<exists>i. k + 1 \<le> i \<and> i < n \<and> P i)"
  proof (cases "i = k")
    case True
    with i show ?thesis by simp
  next
    case False
    with i have "k + 1 \<le> i" by simp
    with i show ?thesis by blast
  qed
next
  assume "k < n" and "P k \<or> (\<exists>i. k + 1 \<le> i \<and> i < n \<and> P i)"
  then show "\<exists>i. k \<le> i \<and> i < n \<and> P i"
    by (metis add_leD1 order_refl)
qed

lemma newLineLoop_step:
  assumes "k < length ring - 2"
  shows "newLineLoop E (map js_point ring) (js_point c) k =
    (if new_edge_hits E ring c k then Some True
     else newLineLoop E (map js_point ring) (js_point c) (k + 1))"
proof -
  from assms have b: "k < length ring - 1" "k \<noteq> length ring - 2" "k < length ring"
    "k + 1 < length ring" "length ring - 1 < length ring" by simp_all
  show ?thesis
    using b by (subst newLineLoop.simps) (simp add: doLinesIntersect_js_point new_edge_hits_def)
qed

lemma newLineLoop_skip:
  assumes "k = length ring - 2" "k < length ring - 1"
  shows "newLineLoop E (map js_point ring) (js_point c) k =
     newLineLoop E (map js_point ring) (js_point c) (k + 1)"
  using assms by (subst newLineLoop.simps) simp

lemma newLineLoop_done:
  assumes "\<not> k < length ring - 1"
  shows "newLineLoop E (map js_point ring) (js_point c) k = Some False"
  using assms by (subst newLineLoop.simps) simp

lemma newLineLoop_points:
  "newLineLoop E (map js_point ring) (js_point c) k
     = Some (\<exists>i. k \<le> i \<and> i < length ring - 2 \<and> new_edge_hits E ring c i)"
proof (induction "length ring - k" arbitrary: k)
  case 0
  then have d: "\<not> k < length ring - 1" by simp
  then have "\<not> (\<exists>i. k \<le> i \<and> i < length ring - 2 \<and> new_edge_hits E ring c i)" by auto
  then show ?case unfolding newLineLoop_done [OF d] by simp
next
  case (Suc m)
  then have IH: "newLineLoop E (map js_point ring) (js_point c) (k + 1)
     = Some (\<exists>i. k + 1 \<le> i \<and> i < length ring - 2 \<and> new_edge_hits E ring c i)"
    by simp
  consider (run) "k < length ring - 2" | (skip) "k = length ring - 2" "k < length ring - 1"
    | (fin) "\<not> k < length ring - 1" by linarith
  then show ?case
  proof cases
    case run
    show ?thesis
      unfolding newLineLoop_step [OF run] IH ex_from_split [OF run, of "new_edge_hits E ring c"]
      by simp
  next
    case skip
    then show ?thesis unfolding newLineLoop_skip [OF skip] IH by auto
  next
    case fin
    then have "\<not> (\<exists>i. k \<le> i \<and> i < length ring - 2 \<and> new_edge_hits E ring c i)" by auto
    then show ?thesis unfolding newLineLoop_done [OF fin] by simp
  qed
qed


lemma closingLoop_step:
  assumes "k < length ring - 1"
  shows "closingLoop E (map js_point ring) (js_point c) k =
    (if closing_edge_hits E ring c k then Some True
     else closingLoop E (map js_point ring) (js_point c) (k + 1))"
proof -
  from assms have b: "k < length ring" "k + 1 < length ring" "0 < length ring" by linarith+
  show ?thesis
    using assms b
    by (subst closingLoop.simps) (simp add: doLinesIntersect_js_point closing_edge_hits_def)
qed

lemma closingLoop_done:
  assumes "\<not> k < length ring - 1"
  shows "closingLoop E (map js_point ring) (js_point c) k = Some False"
  using assms by (subst closingLoop.simps) simp

lemma closingLoop_points:
  "closingLoop E (map js_point ring) (js_point c) k
     = Some (\<exists>i. k \<le> i \<and> i < length ring - 1 \<and> closing_edge_hits E ring c i)"
proof (induction "length ring - k" arbitrary: k)
  case 0
  then have d: "\<not> k < length ring - 1" by simp
  then have "\<not> (\<exists>i. k \<le> i \<and> i < length ring - 1 \<and> closing_edge_hits E ring c i)" by auto
  then show ?case unfolding closingLoop_done [OF d] by simp
next
  case (Suc m)
  then have IH: "closingLoop E (map js_point ring) (js_point c) (k + 1)
     = Some (\<exists>i. k + 1 \<le> i \<and> i < length ring - 1 \<and> closing_edge_hits E ring c i)"
    by simp
  show ?case
  proof (cases "k < length ring - 1")
    case True
    show ?thesis
      unfolding closingLoop_step [OF True] IH ex_from_split [OF True, of "closing_edge_hits E ring c"]
      by simp
  next
    case False
    then have "\<not> (\<exists>i. k \<le> i \<and> i < length ring - 1 \<and> closing_edge_hits E ring c i)" by auto
    then show ?thesis unfolding closingLoop_done [OF False] by simp
  qed
qed

lemma wouldIntersect_points:
  assumes "2 \<le> length ring"
  shows "wouldIntersect E (map js_point ring) (js_point c) =
     Some ((\<exists>i. i < length ring - 2 \<and> new_edge_hits E ring c i) \<or>
           (\<exists>i. 1 \<le> i \<and> i < length ring - 1 \<and> closing_edge_hits E ring c i))"
  using assms
  by (auto simp: wouldIntersect_def newLineLoop_points closingLoop_points)

lemma new_segment_check_iff:
  "new_segment_check E ring c = (\<exists>i. i < length ring - 2 \<and> new_edge_hits E ring c i)"
  by (auto simp: new_segment_check_def)

lemma closing_check_iff:
  "closing_check E ring c = (\<exists>i. 1 \<le> i \<and> i < length ring - 1 \<and> closing_edge_hits E ring c i)"
  by (auto simp: closing_check_def)

lemma seg_ex1: "\<not> segments_intersect demo_env (10, 10) (10, 0) (0, 0) (0, 10)"
  by (simp add: segments_intersect_def spec_direction_def strictly_opposite_def
        on_segment_def lat_def lng_def binary64_int)

lemma seg_ex2: "\<not> segments_intersect demo_env (10, 0) (0, 0) (0, 10) (10, 10)"
  by (simp add: segments_intersect_def spec_direction_def strictly_opposite_def
        on_segment_def lat_def lng_def binary64_int)

lemma seg_ex3: "segments_intersect demo_env (5, 20) (0, 0) (0, 10) (10, 10)"
  by (simp add: segments_intersect_def spec_direction_def strictly_opposite_def
        on_segment_def lat_def lng_def binary64_int)

lemma seg_ex4: "\<not> segments_intersect demo_env (10, 10) (5, 20) (0, 0) (0, 10)"
  by (simp add: segments_intersect_def spec_direction_def strictly_opposite_def
        on_segment_def lat_def lng_def binary64_int)

text \<open>
  C2 (as amended). For every ring of at least 2 points given as \<open>[lat, lng]\<close> pairs and
  every candidate, \<open>wouldIntersect\<close> returns true exactly when the new segment meets one
  of the edges \<open>0 .. n - 3\<close>, or the closing segment from the candidate to \<open>ring.first\<close>
  meets one of the edges \<open>1 .. n - 2\<close>: the closing segment is tested against every
  edge except edge \<open>0\<close>, the one that starts at \<open>ring.first\<close>.
\<close>

theorem wouldIntersect_edges:
  assumes "2 \<le> length ring"
  shows "wouldIntersect E (map js_point ring) (js_point c) =
     Some (new_segment_check E ring c \<or> closing_check E ring c)"
  using wouldIntersect_points [OF assms]
  by (simp add: new_segment_check_iff closing_check_iff)

theorem wouldIntersect_edges_witness:
  "2 \<le> length [(0, 0), (0, 10), (10, 10 :: real)] \<and>
   wouldIntersect demo_env (map js_point [(0, 0), (0, 10), (10, 10)]) (js_point (10, 0)) = Some False"
proof -
  let ?ring = "[(0, 0), (0, 10), (10, 10)] :: point list"
  have len: "2 \<le> length ?ring" by simp
  have a: "\<not> new_segment_check demo_env ?ring (10, 0)"
    using seg_ex1 by (simp add: new_segment_check_iff new_edge_hits_def)
  have "\<And>i. 1 \<le> i \<Longrightarrow> i < length ?ring - 1 \<Longrightarrow> i = 1" by simp
  then have b: "\<not> closing_check demo_env ?ring (10, 0)"
    using seg_ex2 by (auto simp: closing_check_iff closing_edge_hits_def)
  show ?thesis
    using wouldIntersect_edges [OF len, of demo_env "(10, 0)"] a b by simp
qed

text \<open>
  C2 as stated fails: on the ring \<open>[[0,0],[0,10],[10,10]]\<close> with candidate \<open>[5,20]\<close> the
  new segment meets no edge and the edge range \<open>2 .. n - 2\<close> is empty, yet the guard
  rejects, because the closing segment crosses edge \<open>1\<close>.
\<close>

theorem wouldIntersect_closing_range_counterexample:
  "wouldIntersect demo_env (map js_point [(0, 0), (0, 10), (10, 10)]) (js_point (5, 20))
     \<noteq> Some (new_segment_check demo_env [(0, 0), (0, 10), (10, 10)] (5, 20) \<or>
              closing_check_spec demo_env [(0, 0), (0, 10), (10, 10)] (5, 20))"
proof -
  let ?ring = "[(0, 0), (0, 10), (10, 10)] :: point list"
  have len: "2 \<le> length ?ring" by simp
  have "closing_edge_hits demo_env ?ring (5, 20) 1"
    using seg_ex3 by (simp add: closing_edge_hits_def)
  then have "\<exists>i. 1 \<le> i \<and> i < length ?ring - 1 \<and> closing_edge_hits demo_env ?ring (5, 20) i"
    by (intro exI [of _ 1]) simp
  then have yes: "wouldIntersect demo_env (map js_point ?ring) (js_point (5, 20)) = Some True"
    unfolding wouldIntersect_points [OF len] by simp
  have a: "\<not> new_segment_check demo_env ?ring (5, 20)"
    using seg_ex4 by (simp add: new_segment_check_iff new_edge_hits_def)
  have b: "\<not> closing_check_spec demo_env ?ring (5, 20)"
    by (simp add: closing_check_spec_def)
  show ?thesis using yes a b by simp
qed
section \<open>Facts about the polygon area\<close>

lemma get_index_js_point [simp]:
  "get_index (js_point p) 0 = Some (Number (Fin (lat p)))"
  "get_index (js_point p) (Suc 0) = Some (Number (Fin (lng p)))"
  by (simp_all add: js_point_def)

lemma isArray_js_point [simp]: "isArray (js_point p)"
  by (simp add: js_point_def)

lemma unwrapCoords_js_ring: "unwrapCoords (js_ring ring) = Some (js_ring ring)"
  by (subst unwrapCoords.simps) (cases ring; simp add: js_ring_def is_array_at_def)

lemma areaLoop_step:
  assumes "i < length ring"
  shows "areaLoop E (map js_point ring) i a =
           areaLoop E (map js_point ring) (i + 1) (js_add E a (fl_term E ring i))"
proof -
  from assms have "0 < length ring" by linarith
  then have "(i + 1) mod length ring < length ring" by (rule mod_less_divisor)
  with assms show ?thesis
    by (subst areaLoop.simps) (simp add: fl_term_def)
qed

lemma areaLoop_points:
  "areaLoop E (map js_point ring) i a =
     Some (foldl (\<lambda>s k. js_add E s (fl_term E ring k)) a [i ..< length ring])"
proof (induction "length ring - i" arbitrary: i a)
  case 0
  then show ?case by (subst areaLoop.simps) simp
next
  case (Suc m)
  then have lt: "i < length ring" by simp
  from Suc have "m = length ring - (i + 1)" by simp
  from Suc.hyps(1) [OF this]
  have IH: "\<And>a. areaLoop E (map js_point ring) (i + 1) a =
     Some (foldl (\<lambda>s k. js_add E s (fl_term E ring k)) a [i + 1 ..< length ring])" .
  show ?case
    unfolding areaLoop_step [OF lt] IH
    using lt by (simp add: upt_conv_Cons)
qed

lemma sumCoord_lat:
  "sumCoord E 0 (Number a) (map js_point ring) =
     Some (Number (foldl (\<lambda>s x. js_add E s (Fin x)) a (map lat ring)))"
  by (induction ring arbitrary: a) (simp_all add: js_plus_def)

lemma sumCoord_lng:
  "sumCoord E (Suc 0) (Number a) (map js_point ring) =
     Some (Number (foldl (\<lambda>s x. js_add E s (Fin x)) a (map lng ring)))"
  by (induction ring arbitrary: a) (simp_all add: js_plus_def)

lemma polygonArea_js_ring:
  "polygonArea E (js_ring ring) = Some (Number (fl_area_m2 E ring))"
  by (simp add: polygonArea_def js_ring_def areaLoop_points sumCoord_lat
      fl_area_m2_def fl_shoelace_def fl_mean_def fl_sum_def Let_def)

text \<open>On the empty ring the mean latitude is \<open>0 / 0\<close>.\<close>

lemma polygonArea_empty: "polygonArea E (js_ring []) = Some (Number NaN)"
  by (simp add: polygonArea_js_ring fl_area_m2_def fl_mean_def fl_sum_def inf_of_sign_def)

lemma get_prop_total:
  "get_prop z k = Some v \<Longrightarrow> \<exists>r. get_prop z k' = Some r"
  by (cases z) auto

lemma calculateZoneArea_polygon_flat:
  assumes "get_prop zone ''type'' = Some (Str ''polygon'')"
    and "get_prop zone ''coordinates'' = Some (js_ring ring)"
  shows "calculateZoneArea E zone = Some (Number (fl_area_m2 E ring))"
proof -
  from get_prop_total [OF assms(1)] obtain r where "get_prop zone ''radius'' = Some r" by blast
  then show ?thesis
    using assms
    by (simp add: calculateZoneArea_def unwrapCoords_js_ring polygonArea_js_ring)
qed

text \<open>In the arithmetic of the real numbers the rounded formula is the formula.\<close>

lemma foldl_add_exact:
  assumes "exact E"
  shows "foldl (\<lambda>s x. js_add E s (Fin (f x))) (Fin a) xs = Fin (a + (\<Sum>x\<leftarrow>xs. f x))"
  by (induction xs arbitrary: a) (simp_all add: exact_rounding [OF assms] add.assoc)

lemma fl_term_exact: "exact E \<Longrightarrow> fl_term E ring i = Fin (shoelace_term ring i)"
  by (simp only: fl_term_def shoelace_term_def exact_ops)

lemma fl_shoelace_exact:
  assumes "exact E"
  shows "fl_shoelace E ring = Fin (shoelace_raw ring)"
  using foldl_add_exact [OF assms, of "shoelace_term ring" 0 "[0 ..< length ring]"]
  by (simp add: fl_shoelace_def shoelace_raw_def fl_term_exact [OF assms])

lemma fl_sum_exact: "exact E \<Longrightarrow> fl_sum E xs = Fin (sum_list xs)"
  using foldl_add_exact [of E "\<lambda>x. x" 0 xs] by (simp add: fl_sum_def)

lemma fl_mean_exact:
  "exact E \<Longrightarrow> xs \<noteq> [] \<Longrightarrow> fl_mean E xs = Fin (sum_list xs / real (length xs))"
  by (simp add: fl_mean_def fl_sum_exact exact_rounding)

lemma fl_area_exact:
  assumes "exact E" and "ring \<noteq> []"
  shows "fl_area_m2 E ring = Fin (spec_area_m2 ring)"
proof -
  have m: "fl_mean E (map lat ring) = Fin (avg_lat ring)"
    using assms by (simp add: fl_mean_exact avg_lat_def)
  show ?thesis
    unfolding fl_area_m2_def fl_shoelace_exact [OF assms(1)] m
    by (simp add: exact_rounding [OF assms(1)] Math_PI_def spec_area_m2_def)
qed


lemma suc_mod_if: "i < n \<Longrightarrow> Suc i mod n = (if Suc i = n then 0 else Suc i)"
proof (cases "Suc i = n")
  case True
  then show ?thesis by simp
next
  case False
  assume "i < n"
  with False have "Suc i < n" by linarith
  then show ?thesis using False by simp
qed

lemma sum_list_upt_sum: "(\<Sum>i\<leftarrow>[0 ..< n]. f i) = sum f {0 ..< n}"
  by (simp add: interv_sum_list_conv_sum_set_nat)

lemma shoelace_term_rotate1:
  assumes "i < length ring"
  shows "shoelace_term (rotate1 ring) i = shoelace_term ring ((i + 1) mod length ring)"
proof -
  from assms have n: "0 < length ring" by linarith
  then have j: "(i + 1) mod length ring < length ring" by (rule mod_less_divisor)
  show ?thesis
    using assms j by (simp add: shoelace_term_def nth_rotate1)
qed

lemma shoelace_raw_rotate1: "shoelace_raw (rotate1 ring) = shoelace_raw ring"
proof -
  let ?n = "length ring"
  have "shoelace_raw (rotate1 ring) = (\<Sum>i\<in>{0 ..< ?n}. shoelace_term (rotate1 ring) i)"
    by (simp add: shoelace_raw_def sum_list_upt_sum)
  also have "\<dots> = (\<Sum>i\<in>{0 ..< ?n}. shoelace_term ring ((i + 1) mod ?n))"
    by (rule sum.cong) (simp_all add: shoelace_term_rotate1)
  also have "\<dots> = (\<Sum>j\<in>{0 ..< ?n}. shoelace_term ring j)"
    by (rule sum.reindex_bij_witness [where i = "\<lambda>j. if j = 0 then ?n - 1 else j - 1"
          and j = "\<lambda>i. (i + 1) mod ?n"])
       (auto simp: suc_mod_if split: if_splits)
  also have "\<dots> = shoelace_raw ring"
    by (simp add: shoelace_raw_def sum_list_upt_sum)
  finally show ?thesis .
qed

lemma shoelace_term_rev:
  assumes "i < length ring"
  shows "shoelace_term (rev ring) i = - shoelace_term ring (length ring - 1 - (i + 1) mod length ring)"
proof -
  let ?n = "length ring"
  let ?j = "?n - 1 - (i + 1) mod ?n"
  from assms have n: "0 < ?n" by linarith
  then have m: "(i + 1) mod ?n < ?n" by (rule mod_less_divisor)
  have j: "?j < ?n" using n by simp
  have a: "rev ring ! i = ring ! (?n - 1 - i)" using assms by (simp add: rev_nth)
  have b: "rev ring ! ((i + 1) mod ?n) = ring ! ?j" using m by (simp add: rev_nth)
  have c: "(?j + 1) mod ?n = ?n - 1 - i"
    using assms by (auto simp: suc_mod_if split: if_splits)
  show ?thesis
    unfolding shoelace_term_def length_rev a b c by simp
qed

lemma shoelace_raw_rev: "shoelace_raw (rev ring) = - shoelace_raw ring"
proof -
  let ?n = "length ring"
  have "shoelace_raw (rev ring) = (\<Sum>i\<in>{0 ..< ?n}. shoelace_term (rev ring) i)"
    by (simp add: shoelace_raw_def sum_list_upt_sum)
  also have "\<dots> = (\<Sum>i\<in>{0 ..< ?n}. - shoelace_term ring (?n - 1 - (i + 1) mod ?n))"
    by (rule sum.cong) (simp_all add: shoelace_term_rev)
  also have "\<dots> = (\<Sum>j\<in>{0 ..< ?n}. - shoelace_term ring j)"
    by (rule sum.reindex_bij_witness [where i = "\<lambda>j. if j = ?n - 1 then ?n - 1 else ?n - 2 - j"
          and j = "\<lambda>i. ?n - 1 - (i + 1) mod ?n"])
       (auto simp: suc_mod_if split: if_splits)
  also have "\<dots> = - shoelace_raw ring"
    by (simp add: shoelace_raw_def sum_list_upt_sum sum_negf)
  finally show ?thesis .
qed

lemma sum_list_rotate1: "sum_list (rotate1 xs) = sum_list (xs :: real list)"
  by (cases xs) simp_all

lemma spec_area_rotate1: "spec_area_m2 (rotate1 ring) = spec_area_m2 ring"
  by (simp add: spec_area_m2_def shoelace_raw_rotate1 avg_lat_def rotate1_map [symmetric]
      sum_list_rotate1 del: rotate1_map)

lemma spec_area_rotate: "spec_area_m2 (rotate k ring) = spec_area_m2 ring"
  by (induction k) (simp_all add: spec_area_rotate1)

lemma spec_area_rev: "spec_area_m2 (rev ring) = spec_area_m2 ring"
  by (simp add: spec_area_m2_def shoelace_raw_rev avg_lat_def rev_map [symmetric])


lemma calculateZoneArea_polygon:
  assumes "get_prop zone ''type'' = Some (Str ''polygon'')"
    and "get_prop zone ''coordinates'' = Some raw"
  shows "calculateZoneArea E zone = Option.bind (unwrapCoords raw) (polygonArea E)"
proof -
  from get_prop_total [OF assms(1)] obtain r where "get_prop zone ''radius'' = Some r" by blast
  then show ?thesis using assms by (simp add: calculateZoneArea_def)
qed

lemma calculateZoneArea_rectangle:
  assumes "get_prop zone ''type'' = Some (Str ''rectangle'')"
    and "get_prop zone ''coordinates'' = Some raw"
  shows "calculateZoneArea E zone = Option.bind (unwrapCoords raw) (rectangleArea E)"
proof -
  from get_prop_total [OF assms(1)] obtain r where "get_prop zone ''radius'' = Some r" by blast
  then show ?thesis using assms by (simp add: calculateZoneArea_def)
qed

lemma calculateZoneCenter_ring:
  assumes "get_prop zone ''type'' = Some (Str ''rectangle'') \<or> get_prop zone ''type'' = Some (Str ''polygon'')"
    and "get_prop zone ''coordinates'' = Some raw"
  shows "calculateZoneCenter E zone = Option.bind (unwrapCoords raw) (meanCenter E)"
  using assms by (auto simp: calculateZoneCenter_def)

lemma spec_area_demo_square: "spec_area_m2 demo_square = 24642000000"
  by (simp add: spec_area_m2_def shoelace_raw_def shoelace_term_def avg_lat_def demo_square_def
      lat_def lng_def upt_conv_Cons)

lemma fl_area_demo_square: "fl_area_m2 demo_env demo_square = Fin 24642000000"
  by (simp add: fl_area_m2_def fl_shoelace_def fl_term_def fl_mean_def fl_sum_def demo_square_def
      lat_def lng_def upt_conv_Cons binary64_int js_mul_zero_PI_demo)

text \<open>
  C3. For every zone of type \<open>polygon\<close> whose coordinates are a non-empty flat ring of
  \<open>[lat, lng]\<close> points, \<open>calculateZoneArea\<close> returns
  \<open>|\<Sum> (lng\<^sub>i \<sqdot> lat\<^sub>i\<^sub>+\<^sub>1 - lng\<^sub>i\<^sub>+\<^sub>1 \<sqdot> lat\<^sub>i)| / 2\<close>, the indices wrapping around the ring,
  times 111000 and times \<open>111000 \<sqdot> cos\<close> of the mean latitude in radians: in JavaScript
  numbers the value \<open>fl_area_m2\<close>, every operation of the formula rounded, and in the
  arithmetic of the real numbers the value \<open>spec_area_m2\<close>.
\<close>

theorem calculateZoneArea_shoelace:
  assumes "get_prop zone ''type'' = Some (Str ''polygon'')"
    and "get_prop zone ''coordinates'' = Some (js_ring ring)"
    and "ring \<noteq> []"
  shows "calculateZoneArea E zone = Some (Number (fl_area_m2 E ring)) \<and>
    (exact E \<longrightarrow> calculateZoneArea E zone = Some (Number (Fin (spec_area_m2 ring))))"
proof -
  from assms(1) have "zone \<noteq> Undefined" "zone \<noteq> Null" by auto
  then obtain r where r: "get_prop zone ''radius'' = Some r" by (cases zone) auto
  have loop: "areaLoop E (map js_point ring) 0 (Fin 0) = Some (fl_shoelace E ring)"
    by (simp add: areaLoop_points fl_shoelace_def)
  have mean: "sumCoord E 0 (Number (Fin 0)) (map js_point ring) =
      Some (Number (fl_sum E (map lat ring)))"
    by (simp add: sumCoord_lat fl_sum_def)
  have "polygonArea E (js_ring ring) = Some (Number (fl_area_m2 E ring))"
    by (simp add: polygonArea_def js_ring_def loop mean fl_area_m2_def fl_mean_def Let_def)
  then have fl: "calculateZoneArea E zone = Some (Number (fl_area_m2 E ring))"
    using assms(1,2) r by (simp add: calculateZoneArea_def unwrapCoords_js_ring)
  have "fl_area_m2 E ring = Fin (spec_area_m2 ring)" if "exact E"
    using that assms(3) by (rule fl_area_exact)
  with fl show ?thesis by simp
qed

theorem calculateZoneArea_shoelace_witness:
  "get_prop (demo_polygon_zone demo_square) ''type'' = Some (Str ''polygon'') \<and>
   get_prop (demo_polygon_zone demo_square) ''coordinates'' = Some (js_ring demo_square) \<and>
   demo_square \<noteq> [] \<and>
   calculateZoneArea demo_env (demo_polygon_zone demo_square) = Some (Number (Fin 24642000000)) \<and>
   exact exact_env \<and>
   calculateZoneArea exact_env (demo_polygon_zone demo_square) = Some (Number (Fin 24642000000))"
proof -
  have t: "get_prop (demo_polygon_zone demo_square) ''type'' = Some (Str ''polygon'')"
    by (simp add: demo_polygon_zone_def)
  have c: "get_prop (demo_polygon_zone demo_square) ''coordinates'' = Some (js_ring demo_square)"
    by (simp add: demo_polygon_zone_def)
  have n: "demo_square \<noteq> []" by (simp add: demo_square_def)
  have e: "fl_area_m2 exact_env demo_square = Fin 24642000000"
    using fl_area_exact [OF exact_exact_env n] by (simp add: spec_area_demo_square)
  show ?thesis
    using calculateZoneArea_shoelace [OF t c n, of demo_env]
      calculateZoneArea_shoelace [OF t c n, of exact_env] t c n
    by (simp add: fl_area_demo_square spec_area_demo_square exact_exact_env e)
qed

section \<open>Facts about rotating and reversing a ring\<close>

text \<open>Three sums and products that are not doubles, and their roundings.\<close>

lemma binary64_tie_one: "binary64 (1 + 1 / 2 ^ 53) = Fin 1"
  by (subst binary64_round_frac [of _ 52]) (simp_all add: round_half_even_def)

lemma binary64_half_scaled:
  "binary64 ((1 / 2 + 1 / 2 ^ 53) * 111000) = Fin (55500 + 1 / 2 ^ 36)"
  by (subst binary64_round_frac [of _ 37]) (simp_all add: round_half_even_def)

lemma binary64_scaled_twice:
  "binary64 ((55500 + 1 / 2 ^ 36) * 111000) = Fin (6160500000 + 1 / 2 ^ 19)"
  by (subst binary64_round_frac [of _ 20]) (simp_all add: round_half_even_def)

lemma fl_shoelace_demo_triangle: "fl_shoelace demo_env demo_triangle = Fin 1"
  by (simp add: fl_shoelace_def fl_term_def demo_triangle_def lat_def lng_def upt_conv_Cons
      binary64_int binary64_dyadic53 [simplified] binary64_tie_one [simplified])

lemma fl_shoelace_demo_triangle_rotated:
  "fl_shoelace demo_env (rotate 1 demo_triangle) = Fin (1 + 1 / 2 ^ 52)"
  by (simp add: fl_shoelace_def fl_term_def demo_triangle_def lat_def lng_def upt_conv_Cons
      binary64_int binary64_dyadic53 [simplified] binary64_dyadic52 [simplified])

lemma fl_mean_demo_triangle:
  "fl_mean demo_env (map lat demo_triangle) = Fin 0"
  "fl_mean demo_env (map lat (rotate 1 demo_triangle)) = Fin 0"
  by (simp_all add: fl_mean_def fl_sum_def demo_triangle_def lat_def binary64_int)

lemma fl_area_demo_triangle: "fl_area_m2 demo_env demo_triangle = Fin 6160500000"
  unfolding fl_area_m2_def fl_shoelace_demo_triangle fl_mean_demo_triangle
  by (simp add: js_mul_zero_PI_demo binary64_int binary64_dyadic52 [simplified])

lemma fl_area_demo_triangle_rotated:
  "fl_area_m2 demo_env (rotate 1 demo_triangle) = Fin (6160500000 + 1 / 2 ^ 19)"
  unfolding fl_area_m2_def fl_shoelace_demo_triangle_rotated fl_mean_demo_triangle
  by (simp add: js_mul_zero_PI_demo binary64_int binary64_dyadic53 [simplified]
      binary64_half_scaled [simplified] binary64_scaled_twice [simplified])

text \<open>
  Where no sum is rounded. In a ring of at most \<open>2\<^sup>1\<^sup>0\<close> vertices whose coordinates are
  integers of magnitude at most \<open>2\<^sup>2\<^sup>0\<close>, every product, every term and every partial sum
  is an integer below \<open>2\<^sup>5\<^sup>3\<close>, hence a double.
\<close>

lemma binary64_int_le:
  "x \<in> \<int> \<Longrightarrow> \<bar>x\<bar> \<le> 2 ^ 52 \<Longrightarrow> binary64 x = Fin x"
  by (rule binary64_int) simp_all

lemma abs_mult_le:
  fixes a b :: real
  assumes "\<bar>a\<bar> \<le> 2 ^ 20" "\<bar>b\<bar> \<le> 2 ^ 20"
  shows "\<bar>a * b\<bar> \<le> 2 ^ 40"
proof -
  have "\<bar>a\<bar> * \<bar>b\<bar> \<le> 2 ^ 20 * 2 ^ 20" using assms by (intro mult_mono) simp_all
  then show ?thesis by (simp add: abs_mult)
qed

lemma sum_list_Ints: "(\<And>x. x \<in> set xs \<Longrightarrow> f x \<in> \<int>) \<Longrightarrow> (\<Sum>x\<leftarrow>xs. f x) \<in> \<int>"
  by (induction xs) simp_all

lemma fl_term_int:
  assumes r: "rounding E = binary64" and s: "small_int_ring ring" and i: "i < length ring"
  shows "fl_term E ring i = Fin (shoelace_term ring i)"
    and "shoelace_term ring i \<in> \<int>" and "\<bar>shoelace_term ring i\<bar> \<le> 2 ^ 41"
proof -
  let ?j = "(i + 1) mod length ring"
  from i have "0 < length ring" by linarith
  then have j: "?j < length ring" by (rule mod_less_divisor)
  from s i have ci: "lat (ring ! i) \<in> \<int>" "lng (ring ! i) \<in> \<int>"
    "\<bar>lat (ring ! i)\<bar> \<le> 2 ^ 20" "\<bar>lng (ring ! i)\<bar> \<le> 2 ^ 20"
    by (simp_all add: small_int_ring_def)
  from s j have cj: "lat (ring ! ?j) \<in> \<int>" "lng (ring ! ?j) \<in> \<int>"
    "\<bar>lat (ring ! ?j)\<bar> \<le> 2 ^ 20" "\<bar>lng (ring ! ?j)\<bar> \<le> 2 ^ 20"
    by (simp_all add: small_int_ring_def)
  let ?x = "lng (ring ! i) * lat (ring ! ?j)"
  let ?y = "lng (ring ! ?j) * lat (ring ! i)"
  have x: "?x \<in> \<int>" "\<bar>?x\<bar> \<le> 2 ^ 40"
    using ci(2) cj(1) abs_mult_le [OF ci(4) cj(3)] by simp_all
  have y: "?y \<in> \<int>" "\<bar>?y\<bar> \<le> 2 ^ 40"
    using cj(2) ci(1) abs_mult_le [OF cj(4) ci(3)] by simp_all
  have d: "?x - ?y \<in> \<int>" using x y by simp
  have "\<bar>?x - ?y\<bar> \<le> \<bar>?x\<bar> + \<bar>?y\<bar>" by (rule abs_triangle_ineq4)
  also have "\<dots> \<le> 2 ^ 40 + 2 ^ 40" using x y by (intro add_mono)
  finally have b: "\<bar>?x - ?y\<bar> \<le> 2 ^ 41" by simp
  have rx: "binary64 ?x = Fin ?x" using x by (intro binary64_int_le) simp_all
  have ry: "binary64 ?y = Fin ?y" using y by (intro binary64_int_le) simp_all
  have rd: "binary64 (?x - ?y) = Fin (?x - ?y)" using d b by (intro binary64_int_le) simp_all
  show "fl_term E ring i = Fin (shoelace_term ring i)"
    using rx ry rd by (simp add: fl_term_def shoelace_term_def r)
  show "shoelace_term ring i \<in> \<int>" using d by (simp add: shoelace_term_def)
  show "\<bar>shoelace_term ring i\<bar> \<le> 2 ^ 41" using b by (simp add: shoelace_term_def)
qed

lemma foldl_add_int:
  assumes r: "rounding E = binary64"
  shows "(\<And>x. x \<in> set xs \<Longrightarrow> g x = Fin (f x) \<and> f x \<in> \<int> \<and> \<bar>f x\<bar> \<le> m) \<Longrightarrow>
     a \<in> \<int> \<Longrightarrow> \<bar>a\<bar> + real (length xs) * m \<le> 2 ^ 52 \<Longrightarrow>
     foldl (\<lambda>s x. js_add E s (g x)) (Fin a) xs = Fin (a + (\<Sum>x\<leftarrow>xs. f x))"
proof (induction xs arbitrary: a)
  case Nil
  then show ?case by simp
next
  case (Cons x xs)
  from Cons.prems(1) [of x] have x: "g x = Fin (f x)" "f x \<in> \<int>" "\<bar>f x\<bar> \<le> m" by simp_all
  then have m: "0 \<le> m" by linarith
  have "\<bar>a + f x\<bar> \<le> \<bar>a\<bar> + m" using x(3) by linarith
  moreover have "\<bar>a\<bar> + m + real (length xs) * m = \<bar>a\<bar> + real (length (x # xs)) * m"
    by (simp add: algebra_simps)
  moreover have "0 \<le> real (length xs) * m" using m by simp
  ultimately have b: "\<bar>a + f x\<bar> + real (length xs) * m \<le> 2 ^ 52" "\<bar>a + f x\<bar> \<le> 2 ^ 52"
    using Cons.prems(3) by linarith+
  have i: "a + f x \<in> \<int>" using Cons.prems(2) x(2) by simp
  have s: "js_add E (Fin a) (g x) = Fin (a + f x)"
    using binary64_int_le [OF i b(2)] by (simp add: x(1) r)
  have "foldl (\<lambda>s x. js_add E s (g x)) (Fin (a + f x)) xs = Fin (a + f x + (\<Sum>x\<leftarrow>xs. f x))"
    using Cons.prems(1) i b(1) by (intro Cons.IH) simp_all
  then show ?case by (simp add: s add.assoc)
qed

lemma fl_shoelace_int:
  assumes r: "rounding E = binary64" and s: "small_int_ring ring"
  shows "fl_shoelace E ring = Fin (shoelace_raw ring)"
    and "shoelace_raw ring \<in> \<int>" and "\<bar>shoelace_raw ring\<bar> \<le> 2 ^ 51"
proof -
  let ?n = "length ring"
  from s have n: "real ?n \<le> 2 ^ 10" by (simp add: small_int_ring_def)
  have "real ?n * 2 ^ 41 \<le> 2 ^ 10 * 2 ^ 41" using n by (intro mult_right_mono) simp_all
  then have b: "real ?n * 2 ^ 41 \<le> 2 ^ 51" by simp
  have t: "fl_term E ring i = Fin (shoelace_term ring i) \<and> shoelace_term ring i \<in> \<int> \<and>
      \<bar>shoelace_term ring i\<bar> \<le> 2 ^ 41" if "i \<in> set [0 ..< ?n]" for i
    using that fl_term_int [OF r s, of i] by simp
  have "foldl (\<lambda>s i. js_add E s (fl_term E ring i)) (Fin 0) [0 ..< ?n]
      = Fin (0 + (\<Sum>i\<leftarrow>[0 ..< ?n]. shoelace_term ring i))"
    using t b by (intro foldl_add_int [OF r, where m = "2 ^ 41"]) simp_all
  then show "fl_shoelace E ring = Fin (shoelace_raw ring)"
    by (simp add: fl_shoelace_def shoelace_raw_def)
  show "shoelace_raw ring \<in> \<int>"
    unfolding shoelace_raw_def using t by (intro sum_list_Ints) blast
  have "\<bar>\<Sum>i\<leftarrow>[0 ..< ?n]. shoelace_term ring i\<bar> \<le> (\<Sum>i\<leftarrow>[0 ..< ?n]. \<bar>shoelace_term ring i\<bar>)"
    using sum_list_abs [of "map (shoelace_term ring) [0 ..< ?n]"] by (simp add: comp_def)
  also have "\<dots> \<le> (\<Sum>i\<leftarrow>[0 ..< ?n]. 2 ^ 41)"
    using t by (intro sum_list_mono) simp
  also have "\<dots> = real ?n * 2 ^ 41" by (simp add: sum_list_triv)
  finally show "\<bar>shoelace_raw ring\<bar> \<le> 2 ^ 51" using b by (simp add: shoelace_raw_def)
qed

lemma fl_sum_lat_int:
  assumes r: "rounding E = binary64" and s: "small_int_ring ring"
  shows "fl_sum E (map lat ring) = Fin (\<Sum>p\<leftarrow>ring. lat p)"
proof -
  from s have n: "real (length ring) \<le> 2 ^ 10" by (simp add: small_int_ring_def)
  have "real (length ring) * 2 ^ 20 \<le> 2 ^ 10 * 2 ^ 20" using n by (intro mult_right_mono) simp_all
  then have b: "real (length (map lat ring)) * 2 ^ 20 \<le> 2 ^ 52" by simp
  have t: "Fin x = Fin x \<and> x \<in> \<int> \<and> \<bar>x\<bar> \<le> 2 ^ 20" if "x \<in> set (map lat ring)" for x
    using that s by (auto simp: small_int_ring_def)
  have "foldl (\<lambda>s x. js_add E s (Fin x)) (Fin 0) (map lat ring)
      = Fin (0 + (\<Sum>x\<leftarrow>map lat ring. x))"
    using t b by (intro foldl_add_int [OF r, where m = "2 ^ 20"]) simp_all
  then show ?thesis by (simp add: fl_sum_def)
qed

text \<open>Then the area is a function of the magnitude of the shoelace sum, of the sum of the
  latitudes and of the number of vertices.\<close>

lemma fl_area_int:
  assumes r: "rounding E = binary64" and s: "small_int_ring ring"
  shows "fl_area_m2 E ring =
     js_mul E (js_mul E (Fin (\<bar>shoelace_raw ring\<bar> / 2)) (Fin 111000))
       (js_mul E (Fin 111000)
          (js_cos E (js_div E (js_mul E
             (js_div E (Fin (\<Sum>p\<leftarrow>ring. lat p)) (Fin (real (length ring)))) (Math_PI E))
             (Fin 180))))"
proof -
  note raw = fl_shoelace_int [OF r s]
  have "binary64 (shoelace_raw ring / 2) = Fin (shoelace_raw ring / 2)"
  proof (rule binary64_dyadic [of _ 1])
    show "shoelace_raw ring / 2 * 2 ^ 1 \<in> \<int>" using raw(2) by simp
    show "\<bar>shoelace_raw ring / 2 * 2 ^ 1\<bar> < 2 ^ 53" using raw(3) by simp
    show "(1::nat) \<le> 1074" by simp
    show "\<bar>shoelace_raw ring / 2\<bar> < 2 ^ 1024" using raw(3) by simp
  qed
  then have h: "js_abs (js_div E (fl_shoelace E ring) (Fin 2)) = Fin (\<bar>shoelace_raw ring\<bar> / 2)"
    by (simp add: raw(1) r)
  show ?thesis
    unfolding fl_area_m2_def h fl_mean_def fl_sum_lat_int [OF r s] by simp
qed

lemma shoelace_raw_rotate: "shoelace_raw (rotate k ring) = shoelace_raw ring"
  by (induction k) (simp_all add: shoelace_raw_rotate1)

lemma sum_lat_rotate: "(\<Sum>p\<leftarrow>rotate k ring. lat p) = (\<Sum>p\<leftarrow>ring. lat p)"
  by (induction k) (simp_all add: rotate1_map [symmetric] sum_list_rotate1 del: rotate1_map)

lemma small_int_ring_rotate_rev:
  "small_int_ring (rotate k ring) = small_int_ring ring"
  "small_int_ring (rev ring) = small_int_ring ring"
  by (simp_all add: small_int_ring_def)

lemma fl_area_int_rotate_rev:
  assumes r: "rounding E = binary64" and s: "small_int_ring ring"
    and p: "ring' = rotate k ring \<or> ring' = rev ring"
  shows "fl_area_m2 E ring' = fl_area_m2 E ring"
proof -
  from p s have s': "small_int_ring ring'" by (auto simp: small_int_ring_rotate_rev)
  from p have a: "\<bar>shoelace_raw ring'\<bar> = \<bar>shoelace_raw ring\<bar>"
    by (auto simp: shoelace_raw_rotate shoelace_raw_rev)
  from p have b: "(\<Sum>p\<leftarrow>ring'. lat p) = (\<Sum>p\<leftarrow>ring. lat p)"
    by (auto simp: sum_lat_rotate rev_map [symmetric])
  from p have c: "length ring' = length ring" by auto
  show ?thesis
    unfolding fl_area_int [OF r s] fl_area_int [OF r s'] a b c ..
qed

lemma small_int_ring_demo_square: "small_int_ring demo_square"
  by (simp add: small_int_ring_def demo_square_def lat_def lng_def)

text \<open>
  C9 as stated fails. The terms of the shoelace sum are added in the order of the vertices,
  and the addition of doubles is not associative: listed from the vertex \<open>[1, -1]\<close> on,
  the triangle \<open>[1, -1], [-1, 0], [0, 2\<^sup>-\<^sup>5\<^sup>3]\<close> has the area \<open>6160500000\<close>; listed from its
  second vertex on, the same triangle has the area \<open>6160500000 + 2\<^sup>-\<^sup>1\<^sup>9\<close>.
\<close>

theorem calculateZoneArea_rotation_counterexample:
  "calculateZoneArea demo_env (demo_polygon_zone demo_triangle) = Some (Number (Fin 6160500000)) \<and>
   calculateZoneArea demo_env (demo_polygon_zone (rotate 1 demo_triangle))
     = Some (Number (Fin (6160500000 + 1 / 2 ^ 19))) \<and>
   calculateZoneArea demo_env (demo_polygon_zone (rotate 1 demo_triangle))
     \<noteq> calculateZoneArea demo_env (demo_polygon_zone demo_triangle)"
proof -
  have a: "calculateZoneArea demo_env (demo_polygon_zone r) = Some (Number (fl_area_m2 demo_env r))"
    for r
    by (rule calculateZoneArea_polygon_flat) (simp_all add: demo_polygon_zone_def)
  show ?thesis
    unfolding a fl_area_demo_triangle fl_area_demo_triangle_rotated by simp
qed

text \<open>
  C9 (as amended). The area \<open>calculateZoneArea\<close> returns for a polygon ring is unchanged
  when the vertex list is rotated cyclically or reversed, as long as no sum is rounded: in
  the arithmetic of the real numbers for every flat ring, simple or not, and in the
  arithmetic of doubles for the rings of at most \<open>2\<^sup>1\<^sup>0\<close> vertices whose coordinates are
  integers of magnitude at most \<open>2\<^sup>2\<^sup>0\<close>.
\<close>

theorem calculateZoneArea_rotate_rev:
  assumes "get_prop zone ''type'' = Some (Str ''polygon'')"
    and "get_prop zone ''coordinates'' = Some (js_ring ring)"
    and "get_prop zone' ''type'' = Some (Str ''polygon'')"
    and "get_prop zone' ''coordinates'' = Some (js_ring ring')"
    and "ring' = rotate k ring \<or> ring' = rev ring"
    and "exact E \<or> (rounding E = binary64 \<and> small_int_ring ring)"
  shows "calculateZoneArea E zone' = calculateZoneArea E zone"
proof -
  have "fl_area_m2 E ring' = fl_area_m2 E ring"
    using assms(6)
  proof
    assume ex: "exact E"
    show ?thesis
    proof (cases "ring = []")
      case True
      with assms(5) show ?thesis by auto
    next
      case False
      from assms(5) have "length ring' = length ring" by auto
      with False have ne: "ring' \<noteq> []" by auto
      from assms(5) have "spec_area_m2 ring' = spec_area_m2 ring"
        by (auto simp: spec_area_rotate spec_area_rev)
      then show ?thesis
        by (simp add: fl_area_exact [OF ex False] fl_area_exact [OF ex ne])
    qed
  next
    assume "rounding E = binary64 \<and> small_int_ring ring"
    then show ?thesis using assms(5) by (intro fl_area_int_rotate_rev) simp_all
  qed
  then show ?thesis
    using calculateZoneArea_polygon_flat [OF assms(1,2), of E]
      calculateZoneArea_polygon_flat [OF assms(3,4), of E]
    by simp
qed

theorem calculateZoneArea_rotate_rev_witness:
  "get_prop (demo_polygon_zone demo_square) ''type'' = Some (Str ''polygon'') \<and>
   get_prop (demo_polygon_zone demo_square) ''coordinates'' = Some (js_ring demo_square) \<and>
   get_prop (demo_polygon_zone (rev demo_square)) ''type'' = Some (Str ''polygon'') \<and>
   get_prop (demo_polygon_zone (rev demo_square)) ''coordinates'' = Some (js_ring (rev demo_square)) \<and>
   (rev demo_square = rotate 0 demo_square \<or> rev demo_square = rev demo_square) \<and>
   exact exact_env \<and>
   calculateZoneArea exact_env (demo_polygon_zone (rev demo_square))
     = calculateZoneArea exact_env (demo_polygon_zone demo_square) \<and>
   rounding demo_env = binary64 \<and> small_int_ring demo_square \<and>
   calculateZoneArea demo_env (demo_polygon_zone (rev demo_square))
     = calculateZoneArea demo_env (demo_polygon_zone demo_square)"
proof -
  have a: "get_prop (demo_polygon_zone r) ''type'' = Some (Str ''polygon'')"
    "get_prop (demo_polygon_zone r) ''coordinates'' = Some (js_ring r)" for r
    by (simp_all add: demo_polygon_zone_def)
  have d: "rev demo_square = rotate 0 demo_square \<or> rev demo_square = rev demo_square" by simp
  have e: "exact exact_env \<or> (rounding exact_env = binary64 \<and> small_int_ring demo_square)"
    using exact_exact_env by simp
  have f: "exact demo_env \<or> (rounding demo_env = binary64 \<and> small_int_ring demo_square)"
    using small_int_ring_demo_square by simp
  show ?thesis
    using calculateZoneArea_rotate_rev [OF a a d e] calculateZoneArea_rotate_rev [OF a a d f]
      a d exact_exact_env small_int_ring_demo_square
    by simp
qed

section \<open>Facts about the rectangle tag\<close>

lemma js_minmax_inf [simp]:
  "js_min2 PosInf (Fin a) = Fin a"
  "js_max2 NegInf (Fin a) = Fin a"
  by (simp_all add: js_min2_def js_max2_def)

lemma rectangleArea_js_ring4:
  assumes "exact E"
  shows "rectangleArea E (js_ring [p0, p1, p2, p3]) =
     Some (Number (Fin (
       \<bar>max (max (max (lat p0) (lat p1)) (lat p2)) (lat p3) -
         min (min (min (lat p0) (lat p1)) (lat p2)) (lat p3)\<bar> * 111000 *
       (\<bar>max (max (max (lng p0) (lng p1)) (lng p2)) (lng p3) -
          min (min (min (lng p0) (lng p1)) (lng p2)) (lng p3)\<bar> * 111000 *
        cos ((min (min (min (lat p0) (lat p1)) (lat p2)) (lat p3) +
              max (max (max (lat p0) (lat p1)) (lat p2)) (lat p3)) / 2 * pi / 180)))))"
  by (simp add: rectangleArea_def js_ring_def Math_min_def Math_max_def Let_def
      exact_rounding [OF assms] Math_PI_def)

lemma area_demo_diamond_rectangle:
  "calculateZoneArea demo_env (demo_rectangle_zone demo_diamond) = Some (Number (Fin 49284000000))"
proof -
  have "calculateZoneArea demo_env (demo_rectangle_zone demo_diamond)
      = rectangleArea demo_env (js_ring demo_diamond)"
    by (subst calculateZoneArea_rectangle [of _ "js_ring demo_diamond"])
       (simp_all add: demo_rectangle_zone_def unwrapCoords_js_ring)
  also have "\<dots> = Some (Number (Fin 49284000000))"
    by (simp add: demo_diamond_def rectangleArea_def js_ring_def Math_min_def Math_max_def
        Let_def lat_def lng_def binary64_int js_mul_zero_PI_demo)
  finally show ?thesis .
qed

lemma fl_area_demo_diamond: "fl_area_m2 demo_env demo_diamond = Fin 24642000000"
  by (simp add: fl_area_m2_def fl_shoelace_def fl_term_def fl_mean_def fl_sum_def demo_diamond_def
      lat_def lng_def upt_conv_Cons binary64_int js_mul_zero_PI_demo)

lemma area_demo_diamond_polygon:
  "calculateZoneArea demo_env (demo_polygon_zone demo_diamond) = Some (Number (Fin 24642000000))"
  by (subst calculateZoneArea_polygon_flat [of _ demo_diamond])
     (simp_all add: demo_polygon_zone_def fl_area_demo_diamond)

text \<open>
  C5 as stated fails: for the four vertices \<open>[-1,0], [0,1], [1,0], [0,-1]\<close> the tag
  \<open>rectangle\<close> gives the area of the bounding box, twice the area the tag \<open>polygon\<close>
  gives.
\<close>

theorem rectangle_tag_area_counterexample:
  "calculateZoneArea demo_env (demo_rectangle_zone demo_diamond)
     \<noteq> calculateZoneArea demo_env (demo_polygon_zone demo_diamond)"
  by (simp add: area_demo_diamond_rectangle area_demo_diamond_polygon)

lemma polygonPoint_js_point [simp]: "polygonPoint (js_point p) = Some (Some (js_position p))"
  by (simp add: polygonPoint_def js_position_def)

lemma mapPoints_polygonPoint_js:
  "mapPoints polygonPoint (map js_point ring) = Some (map js_position ring)"
  by (induction ring) simp_all

lemma rectanglePoint_js_point [simp]: "rectanglePoint (js_point p) = Some (Some (js_point p))"
  by (simp add: js_point_def)

lemma mapPoints_rectanglePoint_js:
  "mapPoints rectanglePoint (map js_point ring) = Some (map js_point ring)"
  by (induction ring) simp_all

lemma those_coord_js:
  "those (map (\<lambda>p. coord E p 0) (map js_point ring)) = Some (map (\<lambda>p. Fin (lat p)) ring)"
  "those (map (\<lambda>p. coord E p (Suc 0)) (map js_point ring)) = Some (map (\<lambda>p. Fin (lng p)) ring)"
  by (induction ring) simp_all

lemma polygonRing_js_ring:
  "polygonRing (js_ring ring) = closeRing (map js_position ring)"
  by (simp add: polygonRing_def unwrapCoords_js_ring arrayElements_def
      mapPoints_polygonPoint_js js_ring_def [symmetric])
     (simp add: js_ring_def mapPoints_polygonPoint_js)

lemma rectangleRing_js_ring4:
  "rectangleRing E (js_ring [p0, p1, p2, p3]) =
     (let minLat = Number (Fin (min (min (min (lat p0) (lat p1)) (lat p2)) (lat p3)));
          maxLat = Number (Fin (max (max (max (lat p0) (lat p1)) (lat p2)) (lat p3)));
          minLng = Number (Fin (min (min (min (lng p0) (lng p1)) (lng p2)) (lng p3)));
          maxLng = Number (Fin (max (max (max (lng p0) (lng p1)) (lng p2)) (lng p3)))
      in Some [(minLng, minLat), (maxLng, minLat), (maxLng, maxLat), (minLng, maxLat),
               (minLng, minLat)])"
proof -
  have u: "unwrapCoords (Arr [js_point p0, js_point p1, js_point p2, js_point p3])
      = Some (Arr (map js_point [p0, p1, p2, p3]))"
    using unwrapCoords_js_ring [of "[p0, p1, p2, p3]"] by (simp add: js_ring_def)
  show ?thesis
    unfolding rectangleRing_def js_ring_def list.map u
    by (simp add: arrayElements_def Math_min_def Math_max_def Let_def)
qed

lemma axis_ring_sets:
  fixes hi lo w e :: real
  shows "\<exists>pr rr. polygonRing (js_ring [(hi, w), (hi, e), (lo, e), (lo, w)]) = Some pr \<and>
           rectangleRing E (js_ring [(hi, w), (hi, e), (lo, e), (lo, w)]) = Some rr \<and>
           set pr = set rr"
  unfolding polygonRing_js_ring rectangleRing_js_ring4
  by (auto simp: js_position_def lat_def lng_def Let_def min_def max_def)

lemma spec_area_axis_aligned:
  fixes hi lo w e :: real
  shows "spec_area_m2 [(hi, w), (hi, e), (lo, e), (lo, w)] =
     \<bar>hi - lo\<bar> * 111000 * (\<bar>e - w\<bar> * 111000 * cos ((lo + hi) / 2 * pi / 180))"
proof -
  let ?r = "[(hi, w), (hi, e), (lo, e), (lo, w)]"
  have raw: "shoelace_raw ?r = 2 * ((w - e) * (hi - lo))"
    by (simp add: shoelace_raw_def shoelace_term_def lat_def lng_def upt_conv_Cons algebra_simps)
  have avg: "avg_lat ?r = (lo + hi) / 2"
    by (simp add: avg_lat_def lat_def)
  have "\<bar>shoelace_raw ?r\<bar> / 2 = \<bar>hi - lo\<bar> * \<bar>e - w\<bar>"
    unfolding raw by (simp add: abs_mult abs_minus_commute mult.commute)
  then show ?thesis
    unfolding spec_area_m2_def avg by simp
qed

lemma rectangleArea_axis_aligned:
  fixes hi lo w e :: real
  assumes "exact E"
  shows "rectangleArea E (js_ring [(hi, w), (hi, e), (lo, e), (lo, w)]) =
     Some (Number (Fin (\<bar>hi - lo\<bar> * 111000 * (\<bar>e - w\<bar> * 111000 * cos ((lo + hi) / 2 * pi / 180)))))"
proof -
  have a: "\<bar>max hi lo - min hi lo\<bar> = \<bar>hi - lo\<bar>" "min hi lo + max hi lo = lo + hi"
    "\<bar>max w e - min w e\<bar> = \<bar>e - w\<bar>"
    by (auto simp: min_def max_def)
  show ?thesis
    unfolding rectangleArea_js_ring4 [OF assms]
    by (simp add: lat_def lng_def a)
qed

text \<open>
  C5 (as amended). For every zone, the tags \<open>rectangle\<close> and \<open>polygon\<close> over the same
  coordinates give the same centroid. Under the tag \<open>rectangle\<close> the area and the overlap
  geometry are those of the axis-aligned bounding box of the vertices; for an axis-aligned
  rectangle with the corners \<open>[hi,w], [hi,e], [lo,e], [lo,w]\<close> the two tags therefore give
  the same area in the arithmetic of the real numbers, and rings with the same set of
  corners to \<open>turf.polygon\<close>.
\<close>

theorem rectangle_tag_axis_aligned:
  assumes "get_prop zr ''type'' = Some (Str ''rectangle'')"
    and "get_prop zp ''type'' = Some (Str ''polygon'')"
    and "get_prop zr ''coordinates'' = Some raw"
    and "get_prop zp ''coordinates'' = Some raw"
  shows "calculateZoneCenter E zr = calculateZoneCenter E zp \<and>
    (raw = js_ring [(hi, w), (hi, e), (lo, e), (lo, w)] \<longrightarrow>
       (exact E \<longrightarrow> calculateZoneArea E zr = calculateZoneArea E zp) \<and>
       (\<exists>pr rr. zoneToTurfGeometry T E zp = turf_polygon T pr \<and>
                zoneToTurfGeometry T E zr = turf_polygon T rr \<and> set pr = set rr))"
proof (intro conjI impI)
  show "calculateZoneCenter E zr = calculateZoneCenter E zp"
    using assms by (simp add: calculateZoneCenter_ring)
next
  assume raw: "raw = js_ring [(hi, w), (hi, e), (lo, e), (lo, w)]" and ex: "exact E"
  have "calculateZoneArea E zr = rectangleArea E raw"
    using calculateZoneArea_rectangle [OF assms(1,3)] raw by (simp add: unwrapCoords_js_ring)
  moreover have "calculateZoneArea E zp
      = Some (Number (fl_area_m2 E [(hi, w), (hi, e), (lo, e), (lo, w)]))"
    using assms(2,4) raw by (intro calculateZoneArea_polygon_flat) simp_all
  moreover have "fl_area_m2 E [(hi, w), (hi, e), (lo, e), (lo, w)]
      = Fin (spec_area_m2 [(hi, w), (hi, e), (lo, e), (lo, w)])"
    using ex by (rule fl_area_exact) simp
  ultimately show "calculateZoneArea E zr = calculateZoneArea E zp"
    unfolding raw by (simp only: rectangleArea_axis_aligned [OF ex] spec_area_axis_aligned)
next
  assume raw: "raw = js_ring [(hi, w), (hi, e), (lo, e), (lo, w)]"
  from axis_ring_sets [of hi w e lo E] obtain pr rr where
    r: "polygonRing raw = Some pr" "rectangleRing E raw = Some rr" "set pr = set rr"
    unfolding raw by blast
  have "zoneToTurfGeometry T E zp = turf_polygon T pr"
    using assms(2,4) r by (simp add: zoneToTurfGeometry_def)
  moreover have "zoneToTurfGeometry T E zr = turf_polygon T rr"
    using assms(1,3) r by (simp add: zoneToTurfGeometry_def)
  ultimately show "\<exists>pr rr. zoneToTurfGeometry T E zp = turf_polygon T pr \<and>
                zoneToTurfGeometry T E zr = turf_polygon T rr \<and> set pr = set rr"
    using r by blast
qed

theorem rectangle_tag_axis_aligned_witness:
  "get_prop (demo_rectangle_zone demo_rectangle) ''type'' = Some (Str ''rectangle'') \<and>
   get_prop (demo_polygon_zone demo_rectangle) ''type'' = Some (Str ''polygon'') \<and>
   get_prop (demo_rectangle_zone demo_rectangle) ''coordinates'' = Some (js_ring demo_rectangle) \<and>
   get_prop (demo_polygon_zone demo_rectangle) ''coordinates'' = Some (js_ring demo_rectangle) \<and>
   js_ring demo_rectangle = js_ring [(1, 0), (1, 2), (-1, 2), (-1, 0)] \<and>
   calculateZoneCenter demo_env (demo_rectangle_zone demo_rectangle)
     = calculateZoneCenter demo_env (demo_polygon_zone demo_rectangle) \<and>
   exact exact_env \<and>
   calculateZoneArea exact_env (demo_rectangle_zone demo_rectangle)
     = calculateZoneArea exact_env (demo_polygon_zone demo_rectangle)"
proof -
  have a: "get_prop (demo_rectangle_zone demo_rectangle) ''type'' = Some (Str ''rectangle'')"
    by (simp add: demo_rectangle_zone_def)
  have b: "get_prop (demo_polygon_zone demo_rectangle) ''type'' = Some (Str ''polygon'')"
    by (simp add: demo_polygon_zone_def)
  have c: "get_prop (demo_rectangle_zone demo_rectangle) ''coordinates'' = Some (js_ring demo_rectangle)"
    by (simp add: demo_rectangle_zone_def)
  have d: "get_prop (demo_polygon_zone demo_rectangle) ''coordinates'' = Some (js_ring demo_rectangle)"
    by (simp add: demo_polygon_zone_def)
  have e: "js_ring demo_rectangle = js_ring [(1, 0), (1, 2), (-1, 2), (-1, 0)]"
    by (simp add: demo_rectangle_def)
  show ?thesis
    using rectangle_tag_axis_aligned [OF a b c d, of demo_env 1 0 2 "-1" demo_turf]
      rectangle_tag_axis_aligned [OF a b c d, of exact_env 1 0 2 "-1" demo_turf]
      a b c d e exact_exact_env
    by simp
qed

section \<open>Facts about the point encodings\<close>

lemma unwrapCoords_wrapped_ring:
  "unwrapCoords (Arr [js_ring (p # ps)]) = Some (js_ring (p # ps))"
  by (subst unwrapCoords.simps)
     (simp add: is_array_at_def unwrapCoords_js_ring js_ring_def [symmetric],
      simp add: js_ring_def)

lemma dec_small: "dec 0 = ''0''" "dec (Suc 0) = ''1''"
  by (simp_all add: dec.simps)

lemma get_index_js_lat_lng [simp]:
  "get_index (js_lat_lng p) 0 = Some Undefined"
  "get_index (js_lat_lng p) (Suc 0) = Some Undefined"
  by (simp_all add: js_lat_lng_def dec_small)

lemma areaLoop_lat_lng:
  "areaLoop E (map js_lat_lng ring) i a = Some (if i < length ring then NaN else a)"
proof (induction "length ring - i" arbitrary: i a)
  case 0
  then show ?case by (subst areaLoop.simps) simp
next
  case (Suc m)
  then have lt: "i < length ring" by simp
  then have "0 < length ring" by linarith
  then have md: "Suc i mod length ring < length ring" by (rule mod_less_divisor)
  from Suc have "m = length ring - Suc i" by simp
  from Suc.hyps(1) [OF this]
  have IH: "\<And>a. areaLoop E (map js_lat_lng ring) (Suc i) a
              = Some (if Suc i < length ring then NaN else a)" .
  show ?case
    using lt md by (subst areaLoop.simps) (simp add: IH js_sub_def coord_def)
qed

lemma sumCoord_lat_lng:
  "sumCoord E 0 (Number a) (map js_lat_lng ring) = Some (Number (if ring = [] then a else NaN))"
  by (induction ring arbitrary: a) (simp_all add: js_plus_def)

lemma polygonArea_lat_lng:
  "polygonArea E (Arr (map js_lat_lng (p # ps))) = Some (Number NaN)"
  by (simp add: polygonArea_def areaLoop_lat_lng sumCoord_lat_lng del: sumCoord.simps list.map)

text \<open>
  C4 as stated fails: the object \<open>{latitude: 45.8, longitude: 16.0}\<close> is not converted to
  the position that \<open>[45.8, 16.0]\<close> gives, it is dropped as an invalid point.
\<close>

theorem latitude_longitude_counterexample:
  "polygonPoint (js_latitude_longitude (45.8, 16)) \<noteq> polygonPoint (js_point (45.8, 16))"
  by (simp add: polygonPoint_def js_latitude_longitude_def)

text \<open>
  C4 (as amended). A point given as the pair \<open>[lat, lng]\<close> or as the object \<open>{lat, lng}\<close>
  is converted to the same position by the polygon, the rectangle and the circle branch of
  \<open>zoneToTurfGeometry\<close>. An object \<open>{latitude, longitude}\<close> is dropped as an invalid
  point. One-element arrays are unwrapped around a ring, not around a point: a wrapped
  point is read as the pair of \<open>undefined\<close> and an array. \<open>calculateZoneArea\<close> reads the
  pair form only: over a ring of \<open>{lat, lng}\<close> objects its polygon branch returns \<open>NaN\<close>.
\<close>

theorem point_encodings:
  "polygonPoint (js_point p) = Some (Some (js_position p)) \<and>
   polygonPoint (js_lat_lng p) = Some (Some (js_position p)) \<and>
   rectanglePoint (js_point p) = Some (Some (js_point p)) \<and>
   rectanglePoint (js_lat_lng p) = Some (Some (js_point p)) \<and>
   circleCenter (js_point p) = Some (Number (Fin (lat p)), Number (Fin (lng p))) \<and>
   circleCenter (js_lat_lng p) = Some (Number (Fin (lat p)), Number (Fin (lng p))) \<and>
   polygonPoint (js_latitude_longitude p) = Some None \<and>
   rectanglePoint (js_latitude_longitude p) = Some None \<and>
   circleCenter (js_latitude_longitude p) = None \<and>
   polygonPoint (js_wrapped p) = Some (Some (Undefined, js_point p)) \<and>
   polygonRing (Arr [js_ring (p # ps)]) = polygonRing (js_ring (p # ps)) \<and>
   polygonArea E (Arr (map js_lat_lng (p # ps))) = Some (Number NaN)"
proof -
  have "polygonRing (Arr [js_ring (p # ps)]) = polygonRing (js_ring (p # ps))"
    by (simp add: polygonRing_def unwrapCoords_wrapped_ring unwrapCoords_js_ring)
  moreover have "polygonPoint (js_wrapped p) = Some (Some (Undefined, js_point p))"
    by (simp add: polygonPoint_def js_wrapped_def)
  moreover have "circleCenter (js_point p) = Some (Number (Fin (lat p)), Number (Fin (lng p)))"
    by (simp add: circleCenter_def)
  moreover have "rectanglePoint (js_lat_lng p) = Some (Some (js_point p))"
    by (simp add: js_lat_lng_def js_point_def)
  ultimately show ?thesis
    by (simp add: polygonArea_lat_lng polygonPoint_def circleCenter_def js_lat_lng_def
        js_latitude_longitude_def js_position_def del: list.map)
qed

theorem point_encodings_witness:
  "polygonPoint (js_point (45.8, 16)) = polygonPoint (js_lat_lng (45.8, 16)) \<and>
   polygonPoint (js_latitude_longitude (45.8, 16)) = Some None"
  using point_encodings [of "(45.8, 16)" "[]" demo_env] by simp

section \<open>Facts about the overlap scan\<close>

lemma get_prop_id:
  "z \<noteq> Undefined \<Longrightarrow> z \<noteq> Null \<Longrightarrow> get_prop z ''id'' = Some (zone_id z)"
  by (cases z) (simp_all add: zone_id_def)

lemma scanZones_filter:
  assumes "\<forall>z \<in> set zs. z \<noteq> Undefined \<and> z \<noteq> Null"
  shows "scanZones T E g zs found warned =
     Some (found @ filter (overlapping T E g) zs,
           warned @ map (\<lambda>z. CouldNotConvertExisting (zone_id z))
                      (filter (\<lambda>z. zoneToTurfGeometry T E z = None) zs))"
  using assms
proof (induction zs arbitrary: found warned)
  case Nil
  then show ?case by simp
next
  case (Cons z zs)
  then have v: "get_prop z ''id'' = Some (zone_id z)" by (simp add: get_prop_id)
  from Cons have IH: "\<And>found warned. scanZones T E g zs found warned =
     Some (found @ filter (overlapping T E g) zs,
           warned @ map (\<lambda>z. CouldNotConvertExisting (zone_id z))
                      (filter (\<lambda>z. zoneToTurfGeometry T E z = None) zs))"
    by simp
  have o: "overlapping T E g z =
      (case zoneToTurfGeometry T E z of None \<Rightarrow> False | Some eg \<Rightarrow> overlapsOrIntersects T g eg)"
    by (simp add: overlapping_def)
  show ?case
    by (cases "zoneToTurfGeometry T E z") (simp_all add: v IH o)
qed

lemma checkZoneOverlap_scan:
  assumes "truthy newZone" and "zoneToTurfGeometry T E newZone = Some g"
    and "\<forall>z \<in> set zs. z \<noteq> Undefined \<and> z \<noteq> Null"
  shows "checkZoneOverlap T E newZone (Arr zs) =
     Some (\<lparr>hasOverlap = (filter (overlapping T E g) zs \<noteq> []),
            overlappingZones = filter (overlapping T E g) zs\<rparr>,
           map (\<lambda>z. CouldNotConvertExisting (zone_id z))
             (filter (\<lambda>z. zoneToTurfGeometry T E z = None) zs))"
proof (cases zs)
  case Nil
  then show ?thesis by (simp add: checkZoneOverlap_def)
next
  case (Cons a list)
  then have "get_prop (Arr zs) ''length'' \<noteq> Some (Number (Fin 0))" by simp
  then show ?thesis
    using assms by (simp add: checkZoneOverlap_def scanZones_filter)
qed

text \<open>Why the entries must not be \<open>null\<close> or \<open>undefined\<close>: such an entry does not
  convert, and the warning about it reads its \<open>id\<close>, which throws.\<close>

lemma scanZones_null_entry:
  "z = Null \<or> z = Undefined \<Longrightarrow> scanZones T E g (z # rest) found warned = None"
  by (auto simp: zoneToTurfGeometry_def)

lemma overlapping_unconvertible:
  "zoneToTurfGeometry T E z = None \<Longrightarrow> \<not> overlapping T E g z"
  by (simp add: overlapping_def)

lemma zoneToTurfGeometry_demo_saved:
  "zoneToTurfGeometry demo_turf demo_env (demo_saved_zone i demo_square)
     = Some [(Number (Fin 0), Number (Fin (- 1))), (Number (Fin 1), Number (Fin (- 1))),
             (Number (Fin 1), Number (Fin 1)), (Number (Fin 0), Number (Fin 1)),
             (Number (Fin 0), Number (Fin (- 1)))]"
  by (simp add: zoneToTurfGeometry_def demo_saved_zone_def polygonRing_js_ring)
     (simp add: demo_square_def js_position_def lat_def lng_def demo_turf_def)

lemma zoneToTurfGeometry_demo_polygon:
  "zoneToTurfGeometry demo_turf demo_env (demo_polygon_zone demo_square)
     = Some [(Number (Fin 0), Number (Fin (- 1))), (Number (Fin 1), Number (Fin (- 1))),
             (Number (Fin 1), Number (Fin 1)), (Number (Fin 0), Number (Fin 1)),
             (Number (Fin 0), Number (Fin (- 1)))]"
  by (simp add: zoneToTurfGeometry_def demo_polygon_zone_def polygonRing_js_ring)
     (simp add: demo_square_def js_position_def lat_def lng_def demo_turf_def)

lemma zoneToTurfGeometry_demo_empty:
  "zoneToTurfGeometry demo_turf demo_env (demo_saved_zone i []) = None"
  by (simp add: zoneToTurfGeometry_def demo_saved_zone_def polygonRing_js_ring)

lemma zoneToTurfGeometry_demo_unknown:
  "zoneToTurfGeometry T E demo_unknown_zone = None"
  by (simp add: zoneToTurfGeometry_def demo_unknown_zone_def)

lemma overlapping_demo:
  "overlapping demo_turf demo_env
     [(Number (Fin 0), Number (Fin (- 1))), (Number (Fin 1), Number (Fin (- 1))),
      (Number (Fin 1), Number (Fin 1)), (Number (Fin 0), Number (Fin 1)),
      (Number (Fin 0), Number (Fin (- 1)))]
     (demo_saved_zone i demo_square)"
  unfolding overlapping_def zoneToTurfGeometry_demo_saved
  by (simp add: overlapsOrIntersects_def demo_turf_def)

text \<open>
  C6. In a scan of an array of existing zones (values other than \<open>null\<close> and
  \<open>undefined\<close>), a zone whose geometry does not convert is skipped with a warning that
  carries its id, the scan goes on through the zones after it and returns; the result
  lists exactly the overlapping zones among the others, in their order.
\<close>

theorem malformed_zone_skipped:
  assumes "truthy newZone" and "zoneToTurfGeometry T E newZone = Some g"
    and "\<forall>z \<in> set (before @ bad # after). z \<noteq> Undefined \<and> z \<noteq> Null"
    and "zoneToTurfGeometry T E bad = None"
  shows "\<exists>r w. checkZoneOverlap T E newZone (Arr (before @ bad # after)) = Some (r, w) \<and>
           CouldNotConvertExisting (zone_id bad) \<in> set w \<and>
           overlappingZones r = filter (overlapping T E g) (before @ after)"
  unfolding checkZoneOverlap_scan [OF assms(1,2,3)]
  using assms(4) by (simp add: overlapping_unconvertible)

theorem malformed_zone_skipped_witness:
  "truthy (demo_polygon_zone demo_square) \<and>
   zoneToTurfGeometry demo_turf demo_env (demo_saved_zone ''b'' []) = None \<and>
   map_option (overlappingZones \<circ> fst)
     (checkZoneOverlap demo_turf demo_env (demo_polygon_zone demo_square)
        (Arr [demo_saved_zone ''a'' demo_square, demo_saved_zone ''b'' [],
              demo_saved_zone ''c'' demo_square]))
     = Some [demo_saved_zone ''a'' demo_square, demo_saved_zone ''c'' demo_square]"
proof -
  have t: "truthy (demo_polygon_zone demo_square)" by (simp add: demo_polygon_zone_def)
  have v: "\<forall>z \<in> set ([demo_saved_zone ''a'' demo_square] @ demo_saved_zone ''b'' [] #
              [demo_saved_zone ''c'' demo_square]). z \<noteq> Undefined \<and> z \<noteq> Null"
    by (simp add: demo_saved_zone_def)
  show ?thesis
    using malformed_zone_skipped [OF t zoneToTurfGeometry_demo_polygon v
        zoneToTurfGeometry_demo_empty] t
    by (auto simp: zoneToTurfGeometry_demo_empty overlapping_demo)
qed

text \<open>
  C7 as stated fails: the entries of \<open>overlappingZones\<close> are the zone objects that were
  found, not their ids.
\<close>

theorem overlapping_ids_counterexample:
  "map_option (overlappingZones \<circ> fst)
     (checkZoneOverlap demo_turf demo_env (demo_polygon_zone demo_square)
        (Arr [demo_saved_zone ''a'' demo_square]))
   \<noteq> Some (map zone_id
        (found_zones demo_turf demo_env (demo_polygon_zone demo_square)
           [demo_saved_zone ''a'' demo_square]))"
proof -
  have t: "truthy (demo_polygon_zone demo_square)" by (simp add: demo_polygon_zone_def)
  have v: "\<forall>z \<in> set [demo_saved_zone ''a'' demo_square]. z \<noteq> Undefined \<and> z \<noteq> Null"
    by (simp add: demo_saved_zone_def)
  have "zone_id (demo_saved_zone ''a'' demo_square) \<noteq> demo_saved_zone ''a'' demo_square"
    by (simp add: zone_id_def demo_saved_zone_def)
  then show ?thesis
    unfolding checkZoneOverlap_scan [OF t zoneToTurfGeometry_demo_polygon v]
    by (simp add: found_zones_def t zoneToTurfGeometry_demo_polygon overlapping_demo)
qed

text \<open>
  C7 (as amended). For every candidate and every array of existing zones (values other
  than \<open>null\<close> and \<open>undefined\<close>), \<open>checkZoneOverlap\<close> returns a record whose
  \<open>overlappingZones\<close> field is the sequence of the existing zone objects found to overlap
  the candidate, in the order of the array, and whose \<open>hasOverlap\<close> field tells whether
  that sequence is non-empty.
\<close>

theorem checkZoneOverlap_result:
  assumes "\<forall>z \<in> set zs. z \<noteq> Undefined \<and> z \<noteq> Null"
  shows "map_option fst (checkZoneOverlap T E newZone (Arr zs)) =
     Some \<lparr>hasOverlap = (found_zones T E newZone zs \<noteq> []),
           overlappingZones = found_zones T E newZone zs\<rparr>"
proof (cases "truthy newZone")
  case False
  then show ?thesis by (simp add: checkZoneOverlap_def found_zones_def)
next
  case True
  show ?thesis
  proof (cases "zoneToTurfGeometry T E newZone")
    case None
    then show ?thesis using True by (simp add: checkZoneOverlap_def found_zones_def)
  next
    case (Some g)
    show ?thesis
      unfolding checkZoneOverlap_scan [OF True Some assms]
      by (simp add: found_zones_def True Some)
  qed
qed

theorem checkZoneOverlap_result_witness:
  "demo_saved_zone ''a'' demo_square \<noteq> Undefined \<and>
   demo_saved_zone ''a'' demo_square \<noteq> Null \<and>
   map_option fst
     (checkZoneOverlap demo_turf demo_env (demo_polygon_zone demo_square)
        (Arr [demo_saved_zone ''a'' demo_square]))
     = Some \<lparr>hasOverlap = True, overlappingZones = [demo_saved_zone ''a'' demo_square]\<rparr>"
proof -
  have t: "truthy (demo_polygon_zone demo_square)" by (simp add: demo_polygon_zone_def)
  have v: "\<forall>z \<in> set [demo_saved_zone ''a'' demo_square]. z \<noteq> Undefined \<and> z \<noteq> Null"
    by (simp add: demo_saved_zone_def)
  show ?thesis
    using checkZoneOverlap_result [OF v, of demo_turf demo_env "demo_polygon_zone demo_square"] v
    by (simp add: found_zones_def t zoneToTurfGeometry_demo_polygon overlapping_demo)
qed

text \<open>
  C10. \<open>checkZoneOverlap\<close> fails open: when the candidate is \<open>null\<close>, when the list of
  existing zones is \<open>null\<close> or empty, or when the candidate does not convert to a
  geometry, it returns \<open>{ hasOverlap: false, overlappingZones: [] }\<close> and throws nothing.
\<close>

theorem checkZoneOverlap_fails_open:
  assumes "newZone = Null \<or> existingZones = Null \<or> existingZones = Arr [] \<or>
           zoneToTurfGeometry T E newZone = None"
  shows "map_option fst (checkZoneOverlap T E newZone existingZones) =
     Some \<lparr>hasOverlap = False, overlappingZones = []\<rparr>"
  using assms by (auto simp: checkZoneOverlap_def)

theorem checkZoneOverlap_fails_open_witness:
  "zoneToTurfGeometry demo_turf demo_env demo_unknown_zone = None \<and>
   map_option fst
     (checkZoneOverlap demo_turf demo_env demo_unknown_zone
        (Arr [demo_saved_zone ''a'' demo_square]))
     = Some \<lparr>hasOverlap = False, overlappingZones = []\<rparr>"
  using checkZoneOverlap_fails_open [of demo_unknown_zone
      "Arr [demo_saved_zone ''a'' demo_square]" demo_turf demo_env]
  by (simp add: zoneToTurfGeometry_demo_unknown)

section \<open>Facts about the zone store\<close>

lemma map_of_putProp: "map_of (putProp k v kvs) = (map_of kvs)(k \<mapsto> v)"
  by (induction kvs) (auto simp: fun_eq_iff)

lemma map_of_foldl_putProp:
  "map_of (foldl (\<lambda>acc (k, x). putProp k x acc) kvs ps) = map_of kvs ++ map_of (rev ps)"
proof (induction ps arbitrary: kvs)
  case Nil
  then show ?case by simp
next
  case (Cons p ps)
  obtain k v where p: "p = (k, v)" by (cases p)
  show ?case
    by (simp add: p Cons.IH map_of_putProp fun_eq_iff map_add_def split: option.splits)
qed

lemma map_of_rev_keys:
  "map_of (rev (map (\<lambda>k. (k, f k)) ks)) k = (if k \<in> set ks then Some (f k) else None)"
  by (induction ks) (auto simp: map_add_def split: option.splits)

lemma map_of_ownProps_Obj: "map_of (rev (ownProps (Obj kvs))) k = map_of kvs k"
proof -
  have "map_of (rev (ownProps (Obj kvs))) k =
      (if k \<in> set (remdups (map fst kvs)) then Some (the (map_of kvs k)) else None)"
    unfolding ownProps.simps by (rule map_of_rev_keys)
  also have "\<dots> = map_of kvs k"
  proof (cases "map_of kvs k")
    case None
    then have "k \<notin> fst ` set kvs" by (simp add: map_of_eq_None_iff)
    with None show ?thesis by simp
  next
    case (Some v)
    then have "(k, v) \<in> set kvs" by (rule map_of_SomeD)
    then have "k \<in> fst ` set kvs" by force
    with Some show ?thesis by simp
  qed
  finally show ?thesis .
qed

lemma map_of_spread_Obj_empty: "map_of (spread (Obj kvs) []) k = map_of kvs k"
  unfolding spread_def map_of_foldl_putProp
  by (simp add: map_of_ownProps_Obj map_add_def del: ownProps.simps split: option.splits)

lemma map_of_spread_frame:
  assumes "k \<notin> fst ` set (ownProps v)"
  shows "map_of (spread v kvs) k = map_of kvs k"
proof -
  from assms have "k \<notin> fst ` set (rev (ownProps v))" by simp
  then have "map_of (rev (ownProps v)) k = None" by (simp add: map_of_eq_None_iff)
  then show ?thesis
    unfolding spread_def map_of_foldl_putProp by (simp add: map_add_def)
qed

lemma get_prop_addZone:
  assumes "addZone E uuid now zoneData zones = Some (z, zones')"
  shows "zones' = zones @ [z] \<and> get_prop z ''area'' = calculateZoneArea E zoneData \<and>
         get_prop z ''center'' = calculateZoneCenter E zoneData"
  using assms
  by (auto simp: addZone_def Let_def map_of_putProp split: Option.bind_splits)

lemma updateZone_nth:
  assumes "updateZone zid updates zones = Some zones'"
  shows "length zones' = length zones \<and>
         (\<forall>i < length zones.
            get_prop (zones ! i) ''id'' \<noteq> None \<and>
            zones' ! i = (if get_prop (zones ! i) ''id'' = Some (Str zid)
                          then Obj (spread updates (spread (zones ! i) []))
                          else zones ! i))"
  using assms unfolding updateZone_def
proof (induction zones arbitrary: zones')
  case Nil
  then show ?case by simp
next
  case (Cons z zs)
  from Cons.prems obtain i rest where
    i: "get_prop z ''id'' = Some i"
    and r: "those (map (\<lambda>zone. do {
              i \<leftarrow> get_prop zone ''id'';
              Some (if i = Str zid then Obj (spread updates (spread zone [])) else zone)
            }) zs) = Some rest"
    and z': "zones' = (if i = Str zid then Obj (spread updates (spread z [])) else z) # rest"
    by (auto split: option.splits Option.bind_splits)
  from Cons.IH [OF r] have IH: "length rest = length zs \<and>
         (\<forall>i < length zs.
            get_prop (zs ! i) ''id'' \<noteq> None \<and>
            rest ! i = (if get_prop (zs ! i) ''id'' = Some (Str zid)
                          then Obj (spread updates (spread (zs ! i) []))
                          else zs ! i))" .
  show ?case
    unfolding z' using i IH by (auto simp: nth_Cons split: nat.splits)
qed

lemma get_prop_id_Obj:
  "get_prop z ''id'' = Some (Str zid) \<Longrightarrow> \<exists>kvs. z = Obj kvs"
  by (cases z) (auto split: if_splits)

lemma updateZone_frame:
  assumes "updateZone zid updates zones = Some zones'"
    and "k \<notin> fst ` set (ownProps updates)" and "i < length zones"
  shows "get_prop (zones' ! i) k = get_prop (zones ! i) k"
proof (cases "get_prop (zones ! i) ''id'' = Some (Str zid)")
  case False
  with updateZone_nth [OF assms(1)] assms(3) show ?thesis by simp
next
  case True
  then obtain kvs where kvs: "zones ! i = Obj kvs" using get_prop_id_Obj by blast
  from updateZone_nth [OF assms(1)] assms(3) True
  have "zones' ! i = Obj (spread updates (spread (zones ! i) []))" by simp
  then show ?thesis
    by (simp add: kvs map_of_spread_frame [OF assms(2)] map_of_spread_Obj_empty)
qed

lemma meanCenter_js_ring:
  "meanCenter E (js_ring ring) =
     Some (Obj [(''lat'', Number (fl_mean E (map lat ring))),
                (''lng'', Number (fl_mean E (map lng ring)))])"
  by (simp add: meanCenter_def js_ring_def sumCoord_lat sumCoord_lng fl_mean_def fl_sum_def)

lemma binary64_half: "binary64 (1 / 2) = Fin (1 / 2)"
  by (rule binary64_dyadic [of _ 1]) simp_all

lemma area_demo_zone_data:
  "calculateZoneArea demo_env demo_zone_data = Some (Number (Fin 24642000000))"
  by (subst calculateZoneArea_polygon_flat [of _ demo_square])
     (simp_all add: demo_zone_data_def fl_area_demo_square)

lemma center_demo_zone_data:
  "calculateZoneCenter demo_env demo_zone_data =
     Some (Obj [(''lat'', Number (Fin 0)), (''lng'', Number (Fin (1 / 2)))])"
proof -
  have "calculateZoneCenter demo_env demo_zone_data = meanCenter demo_env (js_ring demo_square)"
    by (subst calculateZoneCenter_ring [of _ "js_ring demo_square"])
       (simp_all add: demo_zone_data_def unwrapCoords_js_ring)
  also have "\<dots> = Some (Obj [(''lat'', Number (Fin 0)), (''lng'', Number (Fin (1 / 2)))])"
    by (simp add: meanCenter_js_ring fl_mean_def fl_sum_def demo_square_def lat_def lng_def
        binary64_int binary64_half)
  finally show ?thesis .
qed

lemma addZone_demo:
  "addZone demo_env ''u1'' ''t0'' demo_zone_data []
     = Some (demo_created_zone, [] @ [demo_created_zone])"
  unfolding addZone_def area_demo_zone_data center_demo_zone_data
  by (simp add: demo_zone_data_def demo_created_zone_def spread_def Let_def)

lemma updateZone_demo_rename:
  "updateZone ''u1'' demo_rename [demo_created_zone] = Some [demo_renamed_zone]"
  by (simp add: updateZone_def demo_rename_def demo_created_zone_def demo_renamed_zone_def
      spread_def)

lemma updateZone_demo_coordinates:
  "updateZone ''u1'' (Obj [(''coordinates'', js_ring demo_rectangle)]) [demo_created_zone]
     = Some [demo_updated_zone]"
  by (simp add: updateZone_def demo_created_zone_def demo_updated_zone_def spread_def)

lemma fl_area_demo_rectangle: "fl_area_m2 demo_env demo_rectangle = Fin 49284000000"
  by (simp add: fl_area_m2_def fl_shoelace_def fl_term_def fl_mean_def fl_sum_def
      demo_rectangle_def lat_def lng_def upt_conv_Cons binary64_int js_mul_zero_PI_demo)

lemma area_demo_updated_zone:
  "calculateZoneArea demo_env demo_updated_zone = Some (Number (Fin 49284000000))"
  by (subst calculateZoneArea_polygon_flat [of _ demo_rectangle])
     (simp_all add: demo_updated_zone_def fl_area_demo_rectangle)

text \<open>
  C8 as stated fails: after \<open>updateZone\<close> has replaced the coordinates of the saved square
  by those of a rectangle twice as large, the stored area is still that of the square, not
  the area \<open>calculateZoneArea\<close> gives for the zone as it now is.
\<close>

theorem update_coordinates_counterexample:
  "Option.bind (map_option snd (addZone demo_env ''u1'' ''t0'' demo_zone_data []))
     (updateZone ''u1'' (Obj [(''coordinates'', js_ring demo_rectangle)]))
     = Some [demo_updated_zone] \<and>
   get_prop demo_updated_zone ''area'' \<noteq> calculateZoneArea demo_env demo_updated_zone"
  by (simp add: addZone_demo updateZone_demo_coordinates area_demo_updated_zone)
     (simp add: demo_updated_zone_def)

text \<open>
  C8 (as amended). The area and the centre that \<open>addZone\<close> stores are the values of
  \<open>calculateZoneArea\<close> and \<open>calculateZoneCenter\<close> on the data it is given, whatever
  \<open>area\<close> and \<open>center\<close> that data carries. \<open>updateZone\<close> recomputes nothing: every
  property that the update object does not name keeps its stored value in every zone, so an
  update of name and color leaves the stored area and centre unchanged.
\<close>

theorem area_center_on_create_and_update:
  "(addZone E uuid now zoneData zones = Some (z, zones') \<longrightarrow>
      zones' = zones @ [z] \<and>
      get_prop z ''area'' = calculateZoneArea E zoneData \<and>
      get_prop z ''center'' = calculateZoneCenter E zoneData) \<and>
   (updateZone zid updates stored = Some stored' \<and> i < length stored \<and>
    k \<notin> fst ` set (ownProps updates) \<longrightarrow>
      get_prop (stored' ! i) k = get_prop (stored ! i) k)"
  using get_prop_addZone updateZone_frame by blast

theorem area_center_on_create_and_update_witness:
  "addZone demo_env ''u1'' ''t0'' demo_zone_data [] = Some (demo_created_zone, [demo_created_zone]) \<and>
   get_prop demo_zone_data ''area'' = Some (Number (Fin 1)) \<and>
   get_prop demo_created_zone ''area'' = Some (Number (Fin 24642000000)) \<and>
   updateZone ''u1'' demo_rename [demo_created_zone] = Some [demo_renamed_zone] \<and>
   ''area'' \<notin> fst ` set (ownProps demo_rename) \<and>
   get_prop demo_renamed_zone ''area'' = Some (Number (Fin 24642000000))"
proof -
  have k: "''area'' \<notin> fst ` set (ownProps demo_rename)"
    by (simp add: demo_rename_def)
  have d: "get_prop demo_zone_data ''area'' = Some (Number (Fin 1))"
    by (simp add: demo_zone_data_def)
  show ?thesis
    using area_center_on_create_and_update [where E = demo_env and uuid = "''u1''"
        and now = "''t0''" and zoneData = demo_zone_data and zones = "[]"
        and z = demo_created_zone and zones' = "[demo_created_zone]" and zid = "''u1''"
        and updates = demo_rename and stored = "[demo_created_zone]"
        and stored' = "[demo_renamed_zone]" and i = 0
        and k = "''area''"]
      addZone_demo updateZone_demo_rename k d
    by (simp add: area_demo_zone_data)
qed

end
